theory Spec2Isabelle
  imports Complex_Main "HOL-Library.AList" "HOL-Library.Monad_Syntax"
begin

section \<open>Python values and the json module\<close>

text \<open>
  The editor keeps its undo history and its project files as JSON text produced by
  \<^verbatim>\<open>json.dumps\<close> and read back by \<^verbatim>\<open>json.loads\<close>. Python values are modelled by
  \<open>pyval\<close>; a JSON document is modelled by its syntax tree \<open>json\<close> (the concrete text
  is not modelled). Python floats are idealised as reals: rounding, infinities and NaN
  are not modelled. A dict with string keys is an association list in insertion order.
\<close>

datatype pyval =
    PNone
  | PBool bool
  | PInt int
  | PFloat real
  | PStr string
  | PList "pyval list"
  | PTuple "pyval list"
  | PDict "(string \<times> pyval) list"

datatype json =
    JNull
  | JBool bool
  | JInt int
  | JFloat real
  | JStr string
  | JArr "json list"
  | JObj "(string \<times> json) list"

type_synonym pydict = "(string \<times> pyval) list"

datatype exn = TypeError | IndexError | ZeroDivisionError | AttributeError | KeyError

text \<open>\<^verbatim>\<open>json.dumps\<close>: lists and tuples are both written as JSON arrays.\<close>

primrec dumps :: "pyval \<Rightarrow> json" where
  "dumps PNone = JNull"
| "dumps (PBool b) = JBool b"
| "dumps (PInt i) = JInt i"
| "dumps (PFloat r) = JFloat r"
| "dumps (PStr s) = JStr s"
| "dumps (PList xs) = JArr (map dumps xs)"
| "dumps (PTuple xs) = JArr (map dumps xs)"
| "dumps (PDict kvs) = JObj (map (map_prod id dumps) kvs)"

text \<open>
  Building a dict from the members of a JSON object: a repeated key keeps its first
  position and takes the last value, as Python's \<^verbatim>\<open>dict\<close> does.
\<close>

definition dict_of :: "(string \<times> 'v) list \<Rightarrow> (string \<times> 'v) list" where
  "dict_of kvs = foldl (\<lambda>d (k, v). AList.update k v d) [] kvs"

text \<open>\<^verbatim>\<open>json.loads\<close>: a JSON array always comes back as a list, never as a tuple.\<close>

primrec loads :: "json \<Rightarrow> pyval" where
  "loads JNull = PNone"
| "loads (JBool b) = PBool b"
| "loads (JInt i) = PInt i"
| "loads (JFloat r) = PFloat r"
| "loads (JStr s) = PStr s"
| "loads (JArr xs) = PList (map loads xs)"
| "loads (JObj kvs) = PDict (dict_of (map (map_prod id loads) kvs))"

text \<open>\<^verbatim>\<open>d.get(k, default)\<close>; only a dict has the method.\<close>

definition py_get :: "pyval \<Rightarrow> string \<Rightarrow> pyval \<Rightarrow> exn + pyval" where
  "py_get d k dflt =
     (case d of
        PDict kvs \<Rightarrow> Inr (case map_of kvs k of None \<Rightarrow> dflt | Some v \<Rightarrow> v)
      | _ \<Rightarrow> Inl AttributeError)"

text \<open>The elements a \<^verbatim>\<open>for\<close> loop visits: a dict yields its keys, a string its characters.\<close>

definition py_iter :: "pyval \<Rightarrow> exn + pyval list" where
  "py_iter v =
     (case v of
        PList xs \<Rightarrow> Inr xs
      | PTuple xs \<Rightarrow> Inr xs
      | PStr s \<Rightarrow> Inr (map (\<lambda>c. PStr [c]) s)
      | PDict kvs \<Rightarrow> Inr (map (\<lambda>kv. PStr (fst kv)) kvs)
      | _ \<Rightarrow> Inl TypeError)"

section \<open>Entity model: VideoSegment and TextOverlay\<close>

text \<open>
  The two dataclasses. Fields carry the types of their annotations, with two exceptions
  that follow the code: an effect is a \<^verbatim>\<open>Dict[str, Any]\<close>, and \<open>position\<close>, annotated
  \<^verbatim>\<open>tuple\<close>, is in fact given either a string or a pair by \<^verbatim>\<open>add_text_overlay\<close>, so
  it is kept as a Python value.
\<close>

record VideoSegment =
  path :: string
  start_time :: real
  end_time :: real
  duration :: real
  effects :: "pydict list"
  volume :: real
  speed :: real

record TextOverlay =
  "text" :: string
  start_time :: real
  duration :: real
  position :: pyval
  font_size :: int
  color :: string
  font :: string

definition VideoSegment_to_dict :: "VideoSegment \<Rightarrow> pyval" where
  "VideoSegment_to_dict s = PDict
     [(''path'', PStr (path s)),
      (''start_time'', PFloat (VideoSegment.start_time s)),
      (''end_time'', PFloat (end_time s)),
      (''duration'', PFloat (VideoSegment.duration s)),
      (''effects'', PList (map PDict (effects s))),
      (''volume'', PFloat (volume s)),
      (''speed'', PFloat (speed s))]"

definition TextOverlay_to_dict :: "TextOverlay \<Rightarrow> pyval" where
  "TextOverlay_to_dict ov = PDict
     [(''text'', PStr (text ov)),
      (''start_time'', PFloat (TextOverlay.start_time ov)),
      (''duration'', PFloat (TextOverlay.duration ov)),
      (''position'', position ov),
      (''font_size'', PInt (font_size ov)),
      (''color'', PStr (color ov)),
      (''font'', PStr (font ov))]"

text \<open>
  Reading a keyword argument at its annotated type. The dataclass constructor itself
  checks nothing and would store any value; a value that is not of the annotated type
  is outside this typed model and is reported as \<open>TypeError\<close>. The documents the editor
  writes itself never hold such a value.
\<close>

definition as_str :: "pyval \<Rightarrow> string option" where
  "as_str v = (case v of PStr s \<Rightarrow> Some s | _ \<Rightarrow> None)"

definition as_float :: "pyval \<Rightarrow> real option" where
  "as_float v = (case v of PFloat r \<Rightarrow> Some r | PInt i \<Rightarrow> Some (real_of_int i) | _ \<Rightarrow> None)"

definition as_int :: "pyval \<Rightarrow> int option" where
  "as_int v = (case v of PInt i \<Rightarrow> Some i | _ \<Rightarrow> None)"

definition as_dict :: "pyval \<Rightarrow> pydict option" where
  "as_dict v = (case v of PDict kvs \<Rightarrow> Some kvs | _ \<Rightarrow> None)"

definition as_effects :: "pyval \<Rightarrow> pydict list option" where
  "as_effects v =
     (case v of
        PList xs \<Rightarrow> those (map as_dict xs)
      | _ \<Rightarrow> None)"

text \<open>A required keyword, and a keyword with a default value.\<close>

definition kw_required :: "pydict \<Rightarrow> string \<Rightarrow> (pyval \<Rightarrow> 'a option) \<Rightarrow> 'a option" where
  "kw_required kvs k conv = (case map_of kvs k of None \<Rightarrow> None | Some v \<Rightarrow> conv v)"

definition kw_default :: "pydict \<Rightarrow> string \<Rightarrow> (pyval \<Rightarrow> 'a option) \<Rightarrow> 'a \<Rightarrow> 'a option" where
  "kw_default kvs k conv dflt = (case map_of kvs k of None \<Rightarrow> Some dflt | Some v \<Rightarrow> conv v)"

definition VideoSegment_fields :: "string list" where
  "VideoSegment_fields =
     [''path'', ''start_time'', ''end_time'', ''duration'', ''effects'', ''volume'', ''speed'']"

definition TextOverlay_fields :: "string list" where
  "TextOverlay_fields =
     [''text'', ''start_time'', ''duration'', ''position'', ''font_size'', ''color'', ''font'']"

text \<open>
  \<^verbatim>\<open>VideoSegment(**seg_data)\<close>: \<open>TypeError\<close> when \<open>seg_data\<close> is no mapping, has an
  unexpected key, or misses a required one; \<open>volume\<close> and \<open>speed\<close> default to 1.0.
\<close>

definition VideoSegment_kwargs :: "pyval \<Rightarrow> exn + VideoSegment" where
  "VideoSegment_kwargs seg_data =
     (case seg_data of
        PDict kvs \<Rightarrow>
          if \<not> list_all (\<lambda>k. k \<in> set VideoSegment_fields) (map fst kvs) then Inl TypeError
          else
            (case do {
                p \<leftarrow> kw_required kvs ''path'' as_str;
                st \<leftarrow> kw_required kvs ''start_time'' as_float;
                en \<leftarrow> kw_required kvs ''end_time'' as_float;
                du \<leftarrow> kw_required kvs ''duration'' as_float;
                ef \<leftarrow> kw_required kvs ''effects'' as_effects;
                vo \<leftarrow> kw_default kvs ''volume'' as_float 1;
                sp \<leftarrow> kw_default kvs ''speed'' as_float 1;
                Some \<lparr>path = p, VideoSegment.start_time = st, end_time = en,
                      VideoSegment.duration = du, effects = ef, volume = vo, speed = sp\<rparr>
              } of None \<Rightarrow> Inl TypeError | Some s \<Rightarrow> Inr s)
      | _ \<Rightarrow> Inl TypeError)"

text \<open>\<^verbatim>\<open>TextOverlay(**overlay_data)\<close>: \<open>position\<close> is stored as it comes; \<open>font\<close> defaults to Arial.\<close>

definition TextOverlay_kwargs :: "pyval \<Rightarrow> exn + TextOverlay" where
  "TextOverlay_kwargs overlay_data =
     (case overlay_data of
        PDict kvs \<Rightarrow>
          if \<not> list_all (\<lambda>k. k \<in> set TextOverlay_fields) (map fst kvs) then Inl TypeError
          else
            (case do {
                tx \<leftarrow> kw_required kvs ''text'' as_str;
                st \<leftarrow> kw_required kvs ''start_time'' as_float;
                du \<leftarrow> kw_required kvs ''duration'' as_float;
                po \<leftarrow> kw_required kvs ''position'' Some;
                fs \<leftarrow> kw_required kvs ''font_size'' as_int;
                co \<leftarrow> kw_required kvs ''color'' as_str;
                fo \<leftarrow> kw_default kvs ''font'' as_str ''Arial'';
                Some \<lparr>text = tx, TextOverlay.start_time = st, TextOverlay.duration = du,
                      position = po, font_size = fs, color = co, font = fo\<rparr>
              } of None \<Rightarrow> Inl TypeError | Some ov \<Rightarrow> Inr ov)
      | _ \<Rightarrow> Inl TypeError)"

section \<open>The export thread object\<close>

text \<open>
  \<^verbatim>\<open>ExportThread.__init__\<close> stores its arguments. Python passes a list by reference,
  so \<open>segments\<close> and \<open>text_overlays\<close> hold the addresses of the list objects given to
  the constructor; nothing is copied.
\<close>

type_synonym addr = nat

record ExportThread =
  segments :: addr
  text_overlays :: addr
  output_path :: string
  settings :: pydict

section \<open>The editor state\<close>

text \<open>
  The attributes of \<^verbatim>\<open>VideoEditorPro\<close> that the timeline, the range controller and the
  history read or write. A Python list is a HOL list with the same order, so
  \<^verbatim>\<open>append\<close> adds at the end, \<^verbatim>\<open>pop()\<close> takes the last element and \<^verbatim>\<open>pop(0)\<close> the
  first. The two stacks hold the JSON documents written by \<^verbatim>\<open>json.dumps\<close>.
\<close>

record editor =
  current_video_path :: "string option"
  video_segments :: "VideoSegment list"
  text_overlays :: "TextOverlay list"
  undo_stack :: "json list"
  redo_stack :: "json list"
  clip_duration :: real
  in_time :: real
  out_time :: real
  current_segment_index :: int
  text_color :: string

text \<open>The state set up by \<^verbatim>\<open>__init__\<close>.\<close>

definition init_editor :: editor where
  "init_editor =
     \<lparr>current_video_path = None, video_segments = [], text_overlays = [],
      undo_stack = [], redo_stack = [], clip_duration = 0, in_time = 0, out_time = 0,
      current_segment_index = -1, text_color = ''white''\<rparr>"

text \<open>
  A message box: its kind, title and text. The outcome of a command is \<open>Done\<close> with the
  new state (a plain return, also when the command did nothing), \<open>Refused\<close> when the
  method showed a message box and returned before touching the state, and \<open>Raised\<close>
  when an exception left the method, with the state as it was at that moment.
\<close>

datatype dialog = Information string string | Warning string string | Critical string string

datatype outcome = Done editor | Refused dialog | Raised exn editor

section \<open>Timeline display and declared total duration\<close>

text \<open>
  \<^verbatim>\<open>update_timeline_display\<close> refills the list widget and puts the number of segments
  and \<open>total_duration\<close> into the status bar. The widget texts are display only; the
  model keeps the accumulation of \<open>total_duration\<close>, which divides by \<open>speed\<close> and so
  raises \<open>ZeroDivisionError\<close> on a segment of speed 0.
\<close>

fun total_duration_loop :: "VideoSegment list \<Rightarrow> real \<Rightarrow> exn + real" where
  "total_duration_loop [] total_duration = Inr total_duration"
| "total_duration_loop (segment # rest) total_duration =
     (if speed segment = 0 then Inl ZeroDivisionError
      else total_duration_loop rest
             (total_duration + VideoSegment.duration segment / speed segment))"

definition update_timeline_display :: "editor \<Rightarrow> exn + real" where
  "update_timeline_display st = total_duration_loop (video_segments st) 0"

text \<open>A command that ends with \<^verbatim>\<open>self.update_timeline_display()\<close>.\<close>

definition then_display :: "editor \<Rightarrow> outcome" where
  "then_display st =
     (case update_timeline_display st of Inl e \<Rightarrow> Raised e st | Inr _ \<Rightarrow> Done st)"

section \<open>History: save_state, undo, redo, restore_state\<close>

text \<open>The dict that \<^verbatim>\<open>save_state\<close>, \<^verbatim>\<open>undo\<close>, \<^verbatim>\<open>redo\<close> and \<^verbatim>\<open>save_project\<close> serialise.\<close>

definition state_dict :: "editor \<Rightarrow> pyval" where
  "state_dict st = PDict
     [(''segments'', PList (map VideoSegment_to_dict (video_segments st))),
      (''text_overlays'', PList (map TextOverlay_to_dict (text_overlays st)))]"

definition save_state :: "editor \<Rightarrow> editor" where
  "save_state st =
     (let st1 = st\<lparr>undo_stack := undo_stack st @ [dumps (state_dict st)], redo_stack := []\<rparr>
      in if length (undo_stack st1) > 50
         then st1\<lparr>undo_stack := tl (undo_stack st1)\<rparr>
         else st1)"

text \<open>
  The two loops of \<^verbatim>\<open>restore_state\<close> and \<^verbatim>\<open>load_project\<close>: each element is turned
  into an object and appended; an exception leaves the elements appended so far.
\<close>

fun append_segments :: "pyval list \<Rightarrow> editor \<Rightarrow> outcome" where
  "append_segments [] st = Done st"
| "append_segments (seg_data # rest) st =
     (case VideoSegment_kwargs seg_data of
        Inl e \<Rightarrow> Raised e st
      | Inr segment \<Rightarrow>
          append_segments rest (st\<lparr>video_segments := video_segments st @ [segment]\<rparr>))"

fun append_overlays :: "pyval list \<Rightarrow> editor \<Rightarrow> outcome" where
  "append_overlays [] st = Done st"
| "append_overlays (overlay_data # rest) st =
     (case TextOverlay_kwargs overlay_data of
        Inl e \<Rightarrow> Raised e st
      | Inr overlay \<Rightarrow>
          append_overlays rest (st\<lparr>text_overlays := text_overlays st @ [overlay]\<rparr>))"

text \<open>\<^verbatim>\<open>for x in state.get(key, []): ...\<close> with the loop body given as \<open>body\<close>.\<close>

definition for_each_of :: "pyval \<Rightarrow> string \<Rightarrow> (pyval list \<Rightarrow> editor \<Rightarrow> outcome) \<Rightarrow> editor \<Rightarrow> outcome" where
  "for_each_of state k body st =
     (case py_get state k (PList []) of
        Inl e \<Rightarrow> Raised e st
      | Inr v \<Rightarrow> (case py_iter v of Inl e \<Rightarrow> Raised e st | Inr xs \<Rightarrow> body xs st))"

text \<open>
  \<^verbatim>\<open>restore_state\<close>: both lists are cleared and refilled from the document. The method
  does not assign \<open>current_segment_index\<close>.
\<close>

definition restore_state :: "json \<Rightarrow> editor \<Rightarrow> outcome" where
  "restore_state state_json st =
     (let state = loads state_json in
      case for_each_of state ''segments'' append_segments (st\<lparr>video_segments := []\<rparr>) of
        Done st1 \<Rightarrow>
          (case for_each_of state ''text_overlays'' append_overlays (st1\<lparr>text_overlays := []\<rparr>) of
             Done st2 \<Rightarrow> then_display st2
           | other \<Rightarrow> other)
      | other \<Rightarrow> other)"

definition undo :: "editor \<Rightarrow> outcome" where
  "undo st =
     (if undo_stack st = [] then Done st
      else
        let st1 = st\<lparr>redo_stack := redo_stack st @ [dumps (state_dict st)]\<rparr>;
            state_json = last (undo_stack st1);
            st2 = st1\<lparr>undo_stack := butlast (undo_stack st1)\<rparr>
        in restore_state state_json st2)"

definition redo :: "editor \<Rightarrow> outcome" where
  "redo st =
     (if redo_stack st = [] then Done st
      else
        let st1 = st\<lparr>undo_stack := undo_stack st @ [dumps (state_dict st)]\<rparr>;
            state_json = last (redo_stack st1);
            st2 = st1\<lparr>redo_stack := butlast (redo_stack st1)\<rparr>
        in restore_state state_json st2)"

section \<open>Selection and range controller\<close>

text \<open>
  \<^verbatim>\<open>open_video\<close>: \<open>file_path\<close> is the file dialog's answer and \<open>read_duration\<close> what
  \<^verbatim>\<open>VideoFileClip(path).duration\<close> gave (\<open>None\<close> when reading raised; the warning
  box of that branch is display only and the method goes on).
\<close>

definition open_video :: "string \<Rightarrow> real option \<Rightarrow> editor \<Rightarrow> outcome" where
  "open_video file_path read_duration st =
     (if file_path = [] then Done st
      else
        let st1 = st\<lparr>current_video_path := Some file_path\<rparr>;
            st2 = (case read_duration of
                     Some d \<Rightarrow> st1\<lparr>clip_duration := d, out_time := d\<rparr>
                   | None \<Rightarrow> st1\<lparr>clip_duration := 0\<rparr>)
        in Done (st2\<lparr>in_time := 0\<rparr>))"

definition on_duration_changed :: "int \<Rightarrow> editor \<Rightarrow> outcome" where
  "on_duration_changed dur st =
     (if dur > 0 \<and> clip_duration st = 0
      then Done (st\<lparr>clip_duration := real_of_int dur / 1000,
                     out_time := real_of_int dur / 1000\<rparr>)
      else Done st)"

text \<open>
  \<^verbatim>\<open>set_in_point\<close> and \<^verbatim>\<open>set_out_point\<close>; \<open>pos_ms\<close> is \<^verbatim>\<open>self.player.position()\<close>, in
  milliseconds. The test \<^verbatim>\<open>if self.out_time and ...\<close> is false when \<open>out_time\<close> is 0.
\<close>

definition set_in_point :: "int \<Rightarrow> editor \<Rightarrow> outcome" where
  "set_in_point pos_ms st =
     (let st1 = st\<lparr>in_time := real_of_int pos_ms / 1000\<rparr>;
          st2 = (if in_time st1 < 0 then st1\<lparr>in_time := 0\<rparr> else st1);
          st3 = (if out_time st2 \<noteq> 0 \<and> in_time st2 > out_time st2
                 then st2\<lparr>out_time := in_time st2\<rparr> else st2)
      in Done st3)"

definition set_out_point :: "int \<Rightarrow> editor \<Rightarrow> outcome" where
  "set_out_point pos_ms st =
     (let st1 = st\<lparr>out_time := real_of_int pos_ms / 1000\<rparr>;
          st2 = (if out_time st1 > clip_duration st1
                 then st1\<lparr>out_time := clip_duration st1\<rparr> else st1);
          st3 = (if out_time st2 < in_time st2
                 then st2\<lparr>in_time := out_time st2\<rparr> else st2)
      in Done st3)"

section \<open>Timeline commands\<close>

definition add_segment_to_timeline :: "editor \<Rightarrow> outcome" where
  "add_segment_to_timeline st =
     (case current_video_path st of
        None \<Rightarrow> Refused (Information ''No Video'' ''Please open a video first.'')
      | Some p \<Rightarrow>
          if p = [] then Refused (Information ''No Video'' ''Please open a video first.'')
          else if in_time st \<ge> out_time st
          then Refused (Warning ''Invalid Range'' ''Out point must be after in point.'')
          else
            let segment = \<lparr>path = p, VideoSegment.start_time = in_time st,
                             end_time = out_time st,
                             VideoSegment.duration = out_time st - in_time st,
                             effects = [], volume = 1, speed = 1\<rparr>;
                st1 = save_state st
            in then_display (st1\<lparr>video_segments := video_segments st1 @ [segment]\<rparr>))"

definition on_timeline_item_clicked :: "int \<Rightarrow> editor \<Rightarrow> outcome" where
  "on_timeline_item_clicked row st = Done (st\<lparr>current_segment_index := row\<rparr>)"

text \<open>
  The tuple assignment \<^verbatim>\<open>xs[i], xs[j] = xs[j], xs[i]\<close> reads both elements first
  (\<open>IndexError\<close> when one is out of range) and then writes both. Both callers pass
  indices that are not negative.
\<close>

definition swap_items :: "nat \<Rightarrow> nat \<Rightarrow> 'a list \<Rightarrow> exn + 'a list" where
  "swap_items i j xs =
     (if i < length xs \<and> j < length xs
      then Inr (xs[i := xs ! j, j := xs ! i])
      else Inl IndexError)"

definition move_segment_up :: "editor \<Rightarrow> outcome" where
  "move_segment_up st =
     (if current_segment_index st > 0
      then
        let st1 = save_state st;
            idx = current_segment_index st1
        in case swap_items (nat idx) (nat (idx - 1)) (video_segments st1) of
             Inl e \<Rightarrow> Raised e st1
           | Inr segs \<Rightarrow>
               then_display (st1\<lparr>video_segments := segs, current_segment_index := idx - 1\<rparr>)
      else Done st)"

definition move_segment_down :: "editor \<Rightarrow> outcome" where
  "move_segment_down st =
     (if 0 \<le> current_segment_index st
         \<and> current_segment_index st < int (length (video_segments st)) - 1
      then
        let st1 = save_state st;
            idx = current_segment_index st1
        in case swap_items (nat idx) (nat (idx + 1)) (video_segments st1) of
             Inl e \<Rightarrow> Raised e st1
           | Inr segs \<Rightarrow>
               then_display (st1\<lparr>video_segments := segs, current_segment_index := idx + 1\<rparr>)
      else Done st)"

text \<open>\<^verbatim>\<open>del xs[i]\<close> for an index that is not negative.\<close>

definition del_item :: "nat \<Rightarrow> 'a list \<Rightarrow> exn + 'a list" where
  "del_item i xs = (if i < length xs then Inr (take i xs @ drop (Suc i) xs) else Inl IndexError)"

definition remove_segment :: "editor \<Rightarrow> outcome" where
  "remove_segment st =
     (if 0 \<le> current_segment_index st
         \<and> current_segment_index st < int (length (video_segments st))
      then
        let st1 = save_state st
        in case del_item (nat (current_segment_index st1)) (video_segments st1) of
             Inl e \<Rightarrow> Raised e st1
           | Inr segs \<Rightarrow>
               then_display (st1\<lparr>video_segments := segs, current_segment_index := -1\<rparr>)
      else Done st)"

text \<open>\<open>reply_yes\<close> is the answer to the confirmation question.\<close>

definition clear_timeline :: "bool \<Rightarrow> editor \<Rightarrow> outcome" where
  "clear_timeline reply_yes st =
     (if reply_yes
      then let st1 = save_state st in then_display (st1\<lparr>video_segments := []\<rparr>)
      else Done st)"

section \<open>Effects and volume\<close>

text \<open>The values of the effect widgets when \<^verbatim>\<open>apply_effects\<close> runs.\<close>

record effect_widgets =
  brightness_slider :: int
  contrast_slider :: int
  rotation_spin :: int
  speed_spin :: real
  blackwhite_check :: bool
  mirror_x_check :: bool
  mirror_y_check :: bool

text \<open>\<^verbatim>\<open>if c: effects.append(e)\<close>\<close>

definition append_if :: "bool \<Rightarrow> 'a \<Rightarrow> 'a list \<Rightarrow> 'a list" where
  "append_if c e xs = (if c then xs @ [e] else xs)"

text \<open>
  The body of \<^verbatim>\<open>apply_effects\<close> on the selected segment: the effect list is cleared,
  then refilled in the order of the source; the speed is assigned in between.
\<close>

definition apply_effects_to :: "effect_widgets \<Rightarrow> VideoSegment \<Rightarrow> VideoSegment" where
  "apply_effects_to w segment =
     (let s0 = segment\<lparr>effects := []\<rparr>;
          brightness = real_of_int (brightness_slider w) / 100;
          s1 = s0\<lparr>effects := append_if (brightness \<noteq> 1)
                 [(''type'', PStr ''brightness''), (''value'', PFloat brightness)] (effects s0)\<rparr>;
          contrast = real_of_int (contrast_slider w) / 100;
          s2 = s1\<lparr>effects := append_if (contrast \<noteq> 1)
                 [(''type'', PStr ''contrast''), (''value'', PFloat contrast)] (effects s1)\<rparr>;
          rotation = rotation_spin w;
          s3 = s2\<lparr>effects := append_if (rotation \<noteq> 0)
                 [(''type'', PStr ''rotate''), (''value'', PInt rotation)] (effects s2)\<rparr>;
          s4 = s3\<lparr>speed := speed_spin w\<rparr>;
          s5 = s4\<lparr>effects := append_if (blackwhite_check w)
                 [(''type'', PStr ''blackwhite'')] (effects s4)\<rparr>;
          s6 = s5\<lparr>effects := append_if (mirror_x_check w)
                 [(''type'', PStr ''mirror_x'')] (effects s5)\<rparr>;
          s7 = s6\<lparr>effects := append_if (mirror_y_check w)
                 [(''type'', PStr ''mirror_y'')] (effects s6)\<rparr>
      in s7)"

definition apply_effects :: "effect_widgets \<Rightarrow> editor \<Rightarrow> outcome" where
  "apply_effects w st =
     (if current_segment_index st < 0
         \<or> current_segment_index st \<ge> int (length (video_segments st))
      then Refused (Information ''No Selection'' ''Please select a segment from the timeline.'')
      else
        let st1 = save_state st;
            i = nat (current_segment_index st1);
            segment = video_segments st1 ! i
        in then_display
             (st1\<lparr>video_segments := (video_segments st1)[i := apply_effects_to w segment]\<rparr>))"

definition apply_volume :: "int \<Rightarrow> editor \<Rightarrow> outcome" where
  "apply_volume volume_slider st =
     (if current_segment_index st < 0
         \<or> current_segment_index st \<ge> int (length (video_segments st))
      then Refused (Information ''No Selection'' ''Please select a segment from the timeline.'')
      else
        let st1 = save_state st;
            i = nat (current_segment_index st1);
            vol = real_of_int volume_slider / 100
        in Done (st1\<lparr>video_segments :=
                   (video_segments st1)[i := (video_segments st1 ! i)\<lparr>volume := vol\<rparr>]\<rparr>))"

section \<open>Text overlays\<close>

text \<open>
  \<^verbatim>\<open>str.strip()\<close>: whitespace is removed at both ends. Strings are modelled with 8-bit
  characters; these are the code points below 256 that Python counts as whitespace.
\<close>

definition is_space :: "char \<Rightarrow> bool" where
  "is_space c = (of_char c \<in> {9, 10, 11, 12, 13, 28, 29, 30, 31, 32, 133, 160 :: nat})"

definition strip :: "string \<Rightarrow> string" where
  "strip s = rev (dropWhile is_space (rev (dropWhile is_space s)))"

definition position_map :: "(string \<times> pyval) list" where
  "position_map =
     [(''center'', PStr ''center''),
      (''top'', PTuple [PStr ''center'', PStr ''top'']),
      (''bottom'', PTuple [PStr ''center'', PStr ''bottom'']),
      (''left'', PTuple [PStr ''left'', PStr ''center'']),
      (''right'', PTuple [PStr ''right'', PStr ''center''])]"

text \<open>The values of the text widgets when \<^verbatim>\<open>add_text_overlay\<close> runs.\<close>

record text_widgets =
  text_input :: string
  text_duration_spin :: real
  position_combo :: string
  font_size_spin :: int
  font_combo :: string

definition add_text_overlay :: "text_widgets \<Rightarrow> editor \<Rightarrow> outcome" where
  "add_text_overlay w st =
     (let txt = strip (text_input w) in
      if txt = [] then Refused (Information ''No Text'' ''Please enter some text.'')
      else
        case map_of position_map (position_combo w) of
          None \<Rightarrow> Raised KeyError st
        | Some pos \<Rightarrow>
            let overlay = \<lparr>text = txt, TextOverlay.start_time = in_time st,
                             TextOverlay.duration = text_duration_spin w,
                             position = pos, font_size = font_size_spin w,
                             color = text_color st, font = font_combo w\<rparr>;
                st1 = save_state st
            in Done (st1\<lparr>text_overlays := text_overlays st1 @ [overlay]\<rparr>))"

text \<open>\<open>current_row\<close> is \<^verbatim>\<open>self.text_list.currentRow()\<close>, -1 when no row is selected.\<close>

definition remove_text_overlay :: "int \<Rightarrow> editor \<Rightarrow> outcome" where
  "remove_text_overlay current_row st =
     (if current_row \<ge> 0
      then
        let st1 = save_state st
        in case del_item (nat current_row) (text_overlays st1) of
             Inl e \<Rightarrow> Raised e st1
           | Inr ovs \<Rightarrow> Done (st1\<lparr>text_overlays := ovs\<rparr>)
      else Done st)"

section \<open>Project codec\<close>

text \<open>
  \<^verbatim>\<open>save_project\<close> writes \<^verbatim>\<open>json.dump(project_data)\<close>; the result here is the document
  written (the file dialog and the file system are outside the model).
\<close>

definition project_data :: "editor \<Rightarrow> pyval" where
  "project_data st = PDict
     [(''segments'', PList (map VideoSegment_to_dict (video_segments st))),
      (''text_overlays'', PList (map TextOverlay_to_dict (text_overlays st)))]"

definition save_project :: "editor \<Rightarrow> json" where
  "save_project st = dumps (project_data st)"

text \<open>
  \<^verbatim>\<open>load_project\<close> on the document read from the file: both lists are cleared before
  anything is parsed. The body runs inside \<^verbatim>\<open>try\<close>; \<open>Raised e st\<close> here means that
  \<open>e\<close> reached the handler (which shows the Load Error box) with the state \<open>st\<close>.
\<close>

definition load_project :: "json \<Rightarrow> editor \<Rightarrow> outcome" where
  "load_project doc st =
     (let pd = loads doc;
          st1 = st\<lparr>video_segments := [], text_overlays := []\<rparr>
      in case for_each_of pd ''segments'' append_segments st1 of
           Done st2 \<Rightarrow>
             (case for_each_of pd ''text_overlays'' append_overlays st2 of
                Done st3 \<Rightarrow> then_display st3
              | other \<Rightarrow> other)
         | other \<Rightarrow> other)"

definition choose_text_color :: "string option \<Rightarrow> editor \<Rightarrow> outcome" where
  "choose_text_color picked st =
     (case picked of Some c \<Rightarrow> Done (st\<lparr>text_color := c\<rparr>) | None \<Rightarrow> Done st)"

section \<open>The export pipeline\<close>

text \<open>
  The media engine (MoviePy) is not part of the repository; its operations are
  parameters. Each may raise, which the \<^verbatim>\<open>try\<close> block of \<^verbatim>\<open>run\<close> turns into
  \<^verbatim>\<open>finished(False, str(e))\<close>: \<open>Inl\<close> carries that message. \<open>TextClip_of\<close> stands for
  building the text clip of an overlay and setting its position, start and duration.
\<close>

record 'clip engine =
  VideoFileClip_subclip :: "string \<Rightarrow> real \<Rightarrow> real \<Rightarrow> string + 'clip"
  vfx_speedx :: "real \<Rightarrow> 'clip \<Rightarrow> string + 'clip"
  vfx_colorx :: "pyval \<Rightarrow> 'clip \<Rightarrow> string + 'clip"
  clip_rotate :: "pyval \<Rightarrow> 'clip \<Rightarrow> string + 'clip"
  vfx_mirror_x :: "'clip \<Rightarrow> string + 'clip"
  vfx_mirror_y :: "'clip \<Rightarrow> string + 'clip"
  vfx_blackwhite :: "'clip \<Rightarrow> string + 'clip"
  clip_audio :: "'clip \<Rightarrow> bool"
  clip_volumex :: "real \<Rightarrow> 'clip \<Rightarrow> string + 'clip"
  concatenate_videoclips :: "'clip list \<Rightarrow> string + 'clip"
  TextClip_of :: "TextOverlay \<Rightarrow> string + 'clip"
  CompositeVideoClip :: "'clip list \<Rightarrow> string + 'clip"
  write_videofile :: "'clip \<Rightarrow> string \<Rightarrow> pyval \<Rightarrow> pyval \<Rightarrow> pyval \<Rightarrow> string option"

definition then_try :: "string + 'a \<Rightarrow> ('a \<Rightarrow> string + 'b) \<Rightarrow> string + 'b" where
  "then_try m f = (case m of Inl msg \<Rightarrow> Inl msg | Inr x \<Rightarrow> f x)"

text \<open>\<^verbatim>\<open>d.get(k, default)\<close> on a dict with string keys (an effect, the settings).\<close>

definition dict_get :: "pydict \<Rightarrow> string \<Rightarrow> pyval \<Rightarrow> pyval" where
  "dict_get effect k dflt = (case map_of effect k of None \<Rightarrow> dflt | Some v \<Rightarrow> v)"

text \<open>
  One pass of the effect loop of \<^verbatim>\<open>ExportThread.run\<close>: the \<^verbatim>\<open>if/elif\<close> chain on
  \<^verbatim>\<open>effect.get('type')\<close>. The branches for contrast and blur are \<^verbatim>\<open>pass\<close>.
\<close>

definition apply_effect :: "'clip engine \<Rightarrow> pydict \<Rightarrow> 'clip \<Rightarrow> string + 'clip" where
  "apply_effect eng effect clip =
     (let effect_type = map_of effect ''type'' in
      if effect_type = Some (PStr ''brightness'')
        then vfx_colorx eng (dict_get effect ''value'' (PFloat 1)) clip
      else if effect_type = Some (PStr ''contrast'') then Inr clip
      else if effect_type = Some (PStr ''blur'') then Inr clip
      else if effect_type = Some (PStr ''rotate'')
        then clip_rotate eng (dict_get effect ''value'' (PInt 0)) clip
      else if effect_type = Some (PStr ''mirror_x'') then vfx_mirror_x eng clip
      else if effect_type = Some (PStr ''mirror_y'') then vfx_mirror_y eng clip
      else if effect_type = Some (PStr ''blackwhite'') then vfx_blackwhite eng clip
      else Inr clip)"

fun apply_effect_loop :: "'clip engine \<Rightarrow> pydict list \<Rightarrow> 'clip \<Rightarrow> string + 'clip" where
  "apply_effect_loop eng [] clip = Inr clip"
| "apply_effect_loop eng (effect # rest) clip =
     then_try (apply_effect eng effect clip) (apply_effect_loop eng rest)"

text \<open>The body of the segment loop: cut, speed, effects, volume.\<close>

definition process_segment :: "'clip engine \<Rightarrow> VideoSegment \<Rightarrow> string + 'clip" where
  "process_segment eng segment =
     then_try (VideoFileClip_subclip eng (path segment) (VideoSegment.start_time segment)
                 (end_time segment))
       (\<lambda>clip0.
     then_try (if speed segment \<noteq> 1 then vfx_speedx eng (speed segment) clip0 else Inr clip0)
       (\<lambda>clip1.
     then_try (apply_effect_loop eng (effects segment) clip1)
       (\<lambda>clip2.
          if clip_audio eng clip2 \<and> volume segment \<noteq> 1
          then clip_volumex eng (volume segment) clip2
          else Inr clip2)))"

fun segments_loop :: "'clip engine \<Rightarrow> VideoSegment list \<Rightarrow> 'clip list \<Rightarrow> string + 'clip list" where
  "segments_loop eng [] clips = Inr clips"
| "segments_loop eng (segment # rest) clips =
     then_try (process_segment eng segment) (\<lambda>clip. segments_loop eng rest (clips @ [clip]))"

section \<open>The window together with its list objects\<close>

text \<open>
  To follow what a running export job sees, the two list objects are kept in a store.
  \<open>self_video_segments\<close> and \<open>self_text_overlays\<close> are the references held by the
  attributes \<^verbatim>\<open>self.video_segments\<close> and \<^verbatim>\<open>self.text_overlays\<close>; both attributes are
  assigned in \<^verbatim>\<open>__init__\<close> only. \<open>attrs\<close> holds the other attributes (its two list fields
  are not read). Unallocated addresses hold the empty list.
\<close>

record app =
  segment_lists :: "addr \<Rightarrow> VideoSegment list"
  overlay_lists :: "addr \<Rightarrow> TextOverlay list"
  self_video_segments :: addr
  self_text_overlays :: addr
  attrs :: editor
  export_thread :: "ExportThread option"

definition init_app :: app where
  "init_app =
     \<lparr>segment_lists = (\<lambda>a. []), overlay_lists = (\<lambda>a. []),
      self_video_segments = 0, self_text_overlays = 1,
      attrs = init_editor, export_thread = None\<rparr>"

text \<open>The editor state as the commands see it: the lists are read through the references.\<close>

definition window :: "app \<Rightarrow> editor" where
  "window ap =
     (attrs ap)\<lparr>video_segments := segment_lists ap (self_video_segments ap),
                editor.text_overlays := overlay_lists ap (self_text_overlays ap)\<rparr>"

text \<open>
  Every command changes the two lists in place (\<^verbatim>\<open>append\<close>, \<^verbatim>\<open>del\<close>, \<^verbatim>\<open>clear\<close>, item
  assignment), so its result is written into the same two list objects.
\<close>

definition write_window :: "editor \<Rightarrow> app \<Rightarrow> app" where
  "write_window ed ap =
     ap\<lparr>segment_lists := (segment_lists ap)(self_video_segments ap := video_segments ed),
        overlay_lists := (overlay_lists ap)(self_text_overlays ap := editor.text_overlays ed),
        attrs := ed\<rparr>"

text \<open>
  \<^verbatim>\<open>export_video\<close>; \<open>out_path\<close> is the file dialog's answer and \<open>sett\<close> the settings dict
  built from the export widgets. The thread is given \<^verbatim>\<open>self.video_segments\<close> and
  \<^verbatim>\<open>self.text_overlays\<close> themselves.
\<close>

definition export_video :: "string \<Rightarrow> pydict \<Rightarrow> app \<Rightarrow> dialog + app" where
  "export_video out_path sett ap =
     (if video_segments (window ap) = []
      then Inl (Information ''Empty Timeline'' ''Please add segments to the timeline first.'')
      else if out_path = [] then Inr ap
      else Inr (ap\<lparr>export_thread :=
                  Some \<lparr>segments = self_video_segments ap,
                        text_overlays = self_text_overlays ap,
                        output_path = out_path, settings = sett\<rparr>\<rparr>))"

section \<open>The running export job\<close>

text \<open>
  \<^verbatim>\<open>ExportThread.run\<close> runs in its own thread while the window goes on executing
  commands, so it is modelled one step at a time: every read of one of the two list
  objects is a step of its own, and commands may run between any two steps. The state
  of the job says which read is due; it carries the thread's local variables and the
  values given to \<^verbatim>\<open>self.progress.emit\<close> so far:
  \<^item> \<open>AtSegment i clips pr\<close>: the iterator of \<^verbatim>\<open>enumerate(self.segments)\<close> is asked for
    its next element, \<open>i\<close> being its index;
  \<^item> \<open>AtProgress i clips pr\<close>: the clip of element \<open>i\<close> is appended and
    \<^verbatim>\<open>int((i + 1) / len(self.segments) * 50)\<close> is due, which reads the length again;
  \<^item> \<open>AtOverlay k final_clip text_clips pr\<close>: the clips are concatenated and the
    iterator of \<^verbatim>\<open>self.text_overlays\<close> is asked for its next element, \<open>k\<close> being its index;
  \<^item> \<open>Ended written ok msg pr\<close>: \<^verbatim>\<open>finished(ok, msg)\<close> was emitted; \<open>written\<close> is the
    clip given to \<^verbatim>\<open>write_videofile\<close> when that succeeded.
  A command is taken as one step of the window, and the fields of a fetched segment are
  read together with the fetch; the steps do not follow a change that \<open>apply_effects\<close>
  or \<open>apply_volume\<close> makes to that very segment object while it is being processed.
\<close>

datatype 'clip job =
    AtSegment nat "'clip list" "int list"
  | AtProgress nat "'clip list" "int list"
  | AtOverlay nat 'clip "'clip list" "int list"
  | Ended "'clip option" bool string "int list"

text \<open>
  After the overlay loop: compositing, \<^verbatim>\<open>emit(60)\<close>, encoding, \<^verbatim>\<open>emit(100)\<close> and
  \<^verbatim>\<open>finished(True, self.output_path)\<close>.
\<close>

definition encode_export ::
  "'clip engine \<Rightarrow> 'clip \<Rightarrow> 'clip list \<Rightarrow> string \<Rightarrow> pydict \<Rightarrow> int list \<Rightarrow> 'clip job" where
  "encode_export eng final_clip text_clips out_path sett pr =
     (case (if text_clips \<noteq> []
            then CompositeVideoClip eng (final_clip # text_clips)
            else Inr final_clip) of
        Inl msg \<Rightarrow> Ended None False msg pr
      | Inr final_clip2 \<Rightarrow>
          (case write_videofile eng final_clip2 out_path
                  (dict_get sett ''codec'' (PStr ''libx264''))
                  (dict_get sett ''bitrate'' (PStr ''5000k''))
                  (dict_get sett ''fps'' PNone) of
             Some msg \<Rightarrow> Ended None False msg (pr @ [60])
           | None \<Rightarrow> Ended (Some final_clip2) True out_path (pr @ [60, 100])))"

text \<open>
  One step of the job, given what the two list objects hold when the step is taken.
  A list iterator compares its index with the current length of the list and fetches
  the element at that index; when the index is not below the length the loop is over.
  The progress value divides by the current length: \<open>ZeroDivisionError\<close> when the list
  is empty by then, which the handler of \<^verbatim>\<open>run\<close> turns into
  \<^verbatim>\<open>finished(False, 'division by zero')\<close>. \<^verbatim>\<open>int\<close> of a float that is not negative
  rounds down.
\<close>

definition job_step_on ::
  "'clip engine \<Rightarrow> ExportThread \<Rightarrow> VideoSegment list \<Rightarrow> TextOverlay list
     \<Rightarrow> 'clip job \<Rightarrow> 'clip job" where
  "job_step_on eng thr segs ovs j =
     (case j of
        AtSegment i clips pr \<Rightarrow>
          if i < length segs
          then (case process_segment eng (segs ! i) of
                  Inl msg \<Rightarrow> Ended None False msg pr
                | Inr clip \<Rightarrow> AtProgress i (clips @ [clip]) pr)
          else if clips \<noteq> []
          then (case concatenate_videoclips eng clips of
                  Inl msg \<Rightarrow> Ended None False msg pr
                | Inr final_clip \<Rightarrow> AtOverlay 0 final_clip [] pr)
          else Ended None False ''No clips to export'' pr
      | AtProgress i clips pr \<Rightarrow>
          if length segs = 0
          then Ended None False ''division by zero'' pr
          else AtSegment (Suc i) clips
                 (pr @ [\<lfloor>real (i + 1) / real (length segs) * 50\<rfloor>])
      | AtOverlay k final_clip text_clips pr \<Rightarrow>
          if k < length ovs
          then (case TextClip_of eng (ovs ! k) of
                  Inl msg \<Rightarrow> Ended None False msg pr
                | Inr txt_clip \<Rightarrow> AtOverlay (Suc k) final_clip (text_clips @ [txt_clip]) pr)
          else encode_export eng final_clip text_clips (output_path thr) (settings thr) pr
      | Ended written ok msg pr \<Rightarrow> j)"

text \<open>
  A step of the thread \<open>thr\<close> in the store \<open>ap\<close>: the lists are read through the
  references the thread holds.
\<close>

definition job_step :: "'clip engine \<Rightarrow> ExportThread \<Rightarrow> app \<Rightarrow> 'clip job \<Rightarrow> 'clip job" where
  "job_step eng thr ap j =
     job_step_on eng thr (segment_lists ap (segments thr))
       (overlay_lists ap (ExportThread.text_overlays thr)) j"

section \<open>Reading outcomes\<close>

text \<open>The state a command leaves behind, and whether it reported a failure.\<close>

definition outcome_state :: "editor \<Rightarrow> outcome \<Rightarrow> editor" where
  "outcome_state st r = (case r of Done s \<Rightarrow> s | Refused d \<Rightarrow> st | Raised e s \<Rightarrow> s)"

definition failed :: "outcome \<Rightarrow> bool" where
  "failed r = (case r of Done s \<Rightarrow> False | Refused d \<Rightarrow> True | Raised e s \<Rightarrow> True)"

section \<open>Commands and reachable states\<close>

datatype command =
    OpenVideo string "real option"
  | DurationChanged int
  | SetInPoint int
  | SetOutPoint int
  | AddSegment
  | ItemClicked int
  | MoveUp
  | MoveDown
  | RemoveSegment
  | ClearTimeline bool
  | ApplyEffects effect_widgets
  | ApplyVolume int
  | ChooseTextColor "string option"
  | AddTextOverlay text_widgets
  | RemoveTextOverlay int
  | LoadProject json
  | Undo
  | Redo

fun run_command :: "command \<Rightarrow> editor \<Rightarrow> outcome" where
  "run_command (OpenVideo p d) st = open_video p d st"
| "run_command (DurationChanged dur) st = on_duration_changed dur st"
| "run_command (SetInPoint pos_ms) st = set_in_point pos_ms st"
| "run_command (SetOutPoint pos_ms) st = set_out_point pos_ms st"
| "run_command AddSegment st = add_segment_to_timeline st"
| "run_command (ItemClicked row) st = on_timeline_item_clicked row st"
| "run_command MoveUp st = move_segment_up st"
| "run_command MoveDown st = move_segment_down st"
| "run_command RemoveSegment st = remove_segment st"
| "run_command (ClearTimeline reply_yes) st = clear_timeline reply_yes st"
| "run_command (ApplyEffects w) st = apply_effects w st"
| "run_command (ApplyVolume v) st = apply_volume v st"
| "run_command (ChooseTextColor picked) st = choose_text_color picked st"
| "run_command (AddTextOverlay w) st = add_text_overlay w st"
| "run_command (RemoveTextOverlay row) st = remove_text_overlay row st"
| "run_command (LoadProject doc) st = load_project doc st"
| "run_command Undo st = undo st"
| "run_command Redo st = redo st"

text \<open>The states the editor can be in: any sequence of commands from the initial state.\<close>

inductive reachable :: "editor \<Rightarrow> bool" where
  reachable_init: "reachable init_editor"
| reachable_step: "reachable st \<Longrightarrow> reachable (outcome_state st (run_command c st))"

text \<open>Running a sequence of commands, each on the state the previous one left.\<close>

fun run_commands :: "command list \<Rightarrow> editor \<Rightarrow> editor" where
  "run_commands [] st = st"
| "run_commands (c # cs) st = run_commands cs (outcome_state st (run_command c st))"

text \<open>A command on the window with its list objects.\<close>

definition app_command :: "command \<Rightarrow> app \<Rightarrow> app" where
  "app_command c ap = write_window (outcome_state (window ap) (run_command c (window ap))) ap"

section \<open>Predicates for the properties\<close>

text \<open>The bound on the history, and states with the same history.\<close>

definition history_bounded :: "editor \<Rightarrow> bool" where
  "history_bounded st = (length (undo_stack st) + length (redo_stack st) \<le> 50)"

definition same_history :: "editor \<Rightarrow> editor \<Rightarrow> bool" where
  "same_history a b = (undo_stack a = undo_stack b \<and> redo_stack a = redo_stack b)"

definition history_step :: "editor \<Rightarrow> editor \<Rightarrow> bool" where
  "history_step st st' = (same_history st' st \<or> same_history st' (save_state st))"

text \<open>The effect list that \<^verbatim>\<open>apply_effects\<close> builds from the widgets, written out.\<close>

definition widget_effects :: "effect_widgets \<Rightarrow> pydict list" where
  "widget_effects w =
     (if real_of_int (brightness_slider w) / 100 \<noteq> 1
      then [[(''type'', PStr ''brightness''),
             (''value'', PFloat (real_of_int (brightness_slider w) / 100))]]
      else [])
     @ (if real_of_int (contrast_slider w) / 100 \<noteq> 1
        then [[(''type'', PStr ''contrast''),
               (''value'', PFloat (real_of_int (contrast_slider w) / 100))]]
        else [])
     @ (if rotation_spin w \<noteq> 0
        then [[(''type'', PStr ''rotate''), (''value'', PInt (rotation_spin w))]] else [])
     @ (if blackwhite_check w then [[(''type'', PStr ''blackwhite'')]] else [])
     @ (if mirror_x_check w then [[(''type'', PStr ''mirror_x'')]] else [])
     @ (if mirror_y_check w then [[(''type'', PStr ''mirror_y'')]] else [])"

text \<open>
  Two states that differ at most in the segment list and the overlay list.
\<close>

definition same_attrs :: "editor \<Rightarrow> editor \<Rightarrow> bool" where
  "same_attrs a b =
     (a\<lparr>video_segments := [], editor.text_overlays := []\<rparr>
      = b\<lparr>video_segments := [], editor.text_overlays := []\<rparr>)"

text \<open>
  A Python value that \<^verbatim>\<open>json.loads(json.dumps(v))\<close> gives back unchanged; a segment
  whose effect dicts are such values (all effects that \<^verbatim>\<open>apply_effects\<close> builds are);
  an overlay as it comes back from a snapshot or a project file.
\<close>

definition json_stable :: "pyval \<Rightarrow> bool" where
  "json_stable v = (loads (dumps v) = v)"

definition stable_segment :: "VideoSegment \<Rightarrow> bool" where
  "stable_segment s = list_all (\<lambda>e. json_stable (PDict e)) (effects s)"

definition reloaded :: "TextOverlay \<Rightarrow> TextOverlay" where
  "reloaded ov = ov\<lparr>position := loads (dumps (position ov))\<rparr>"

text \<open>
  The commands that change the timeline; a state whose segments survive a snapshot and
  can be displayed; a state \<open>st1\<close> whose history is the one \<open>save_state\<close> builds in \<open>st\<close>.
\<close>

definition mutating :: "command \<Rightarrow> bool" where
  "mutating c =
     (case c of
        AddSegment \<Rightarrow> True | MoveUp \<Rightarrow> True | MoveDown \<Rightarrow> True | RemoveSegment \<Rightarrow> True
      | ClearTimeline b \<Rightarrow> True | ApplyEffects w \<Rightarrow> True | ApplyVolume v \<Rightarrow> True
      | AddTextOverlay w \<Rightarrow> True | RemoveTextOverlay r \<Rightarrow> True | _ \<Rightarrow> False)"

definition nonzero_speeds :: "editor \<Rightarrow> bool" where
  "nonzero_speeds st = list_all (\<lambda>s. speed s \<noteq> 0) (video_segments st)"

definition well_kept :: "editor \<Rightarrow> bool" where
  "well_kept st = (list_all stable_segment (video_segments st) \<and> nonzero_speeds st)"

definition pushed :: "editor \<Rightarrow> editor \<Rightarrow> bool" where
  "pushed st st1 = (undo_stack st1 = undo_stack (save_state st) \<and> redo_stack st1 = [])"

text \<open>
  A segment as \<^verbatim>\<open>add_segment_to_timeline\<close> builds it and the edit commands keep it:
  it survives a snapshot, its \<open>duration\<close> field is \<open>end_time - start_time\<close>, and its
  speed is not 0.
\<close>

definition consistent_segment :: "VideoSegment \<Rightarrow> bool" where
  "consistent_segment s =
     (stable_segment s \<and> VideoSegment.duration s = end_time s - VideoSegment.start_time s
      \<and> speed s \<noteq> 0)"

text \<open>
  The speed spin box is set up with \<^verbatim>\<open>setRange(0.1, 10.0)\<close>. The states built by the
  editor itself: any commands with the speed widget in its range, where the project files
  opened are files that \<^verbatim>\<open>save_project\<close> wrote from such a state.
\<close>

definition speed_in_range :: "effect_widgets \<Rightarrow> bool" where
  "speed_in_range w = (1 / 10 \<le> speed_spin w \<and> speed_spin w \<le> 10)"

definition editing_command :: "command \<Rightarrow> bool" where
  "editing_command c =
     (case c of LoadProject doc \<Rightarrow> False | ApplyEffects w \<Rightarrow> speed_in_range w | _ \<Rightarrow> True)"

inductive edited :: "editor \<Rightarrow> bool" where
  edited_init: "edited init_editor"
| edited_step:
    "edited st \<Longrightarrow> editing_command c \<Longrightarrow> edited (outcome_state st (run_command c st))"
| edited_load:
    "edited st \<Longrightarrow> edited st' \<Longrightarrow>
     edited (outcome_state st (load_project (save_project st') st))"

text \<open>Every snapshot on the two stacks was taken of a timeline of such segments.\<close>

definition snapshots_consistent :: "editor \<Rightarrow> bool" where
  "snapshots_consistent st =
     (\<forall>j \<in> set (undo_stack st) \<union> set (redo_stack st).
        \<exists>s. j = dumps (state_dict s) \<and> list_all consistent_segment (video_segments s))"

definition edit_invariant :: "editor \<Rightarrow> bool" where
  "edit_invariant st =
     (list_all consistent_segment (video_segments st) \<and> snapshots_consistent st)"

section \<open>Example timelines\<close>

definition one_segment :: VideoSegment where
  "one_segment =
     \<lparr>path = ''a.mp4'', VideoSegment.start_time = 0, end_time = 5,
      VideoSegment.duration = 5, effects = [], volume = 1, speed = 1\<rparr>"

definition two_segments :: "VideoSegment list" where
  "two_segments =
     [one_segment,
      \<lparr>path = ''b.mp4'', VideoSegment.start_time = 0, end_time = 3,
       VideoSegment.duration = 3, effects = [], volume = 1, speed = 2\<rparr>]"

text \<open>One segment on the timeline and selected.\<close>

definition selected_one :: editor where
  "selected_one = init_editor\<lparr>video_segments := [one_segment], current_segment_index := 0\<rparr>"

text \<open>One segment on the timeline while the selection index is 1, past the end.\<close>

definition stale_selection :: editor where
  "stale_selection = init_editor\<lparr>video_segments := [one_segment], current_segment_index := 1\<rparr>"

text \<open>Brightness 120 percent and the black-and-white filter: two effects.\<close>

definition bright_gray :: effect_widgets where
  "bright_gray =
     \<lparr>brightness_slider = 120, contrast_slider = 100, rotation_spin = 0, speed_spin = 1,
      blackwhite_check = True, mirror_x_check = False, mirror_y_check = False\<rparr>"

text \<open>
  A ten second clip is open and the out point was then set at position 0:
  \<open>in_time = out_time = 0\<close>, \<open>clip_duration = 10\<close>.
\<close>

definition out_at_zero :: editor where
  "out_at_zero = init_editor\<lparr>current_video_path := Some ''a.mp4'', clip_duration := 10\<rparr>"

text \<open>Range states for the setters: in 4, out 6 of 10 seconds.\<close>

definition range_4_6 :: editor where
  "range_4_6 = init_editor\<lparr>current_video_path := Some ''a.mp4'', clip_duration := 10,
                            in_time := 4, out_time := 6\<rparr>"

text \<open>The snapshot of the empty timeline, and a full undo stack.\<close>

definition empty_snapshot :: json where
  "empty_snapshot = JObj [(''segments'', JArr []), (''text_overlays'', JArr [])]"

definition full_history :: editor where
  "full_history = init_editor\<lparr>undo_stack := replicate 50 empty_snapshot\<rparr>"

text \<open>
  A text overlay at the top: what \<^verbatim>\<open>add_text_overlay\<close> builds from the widget values
  \<open>hi_top\<close>, and the same overlay with its position as a list.
\<close>

definition top_overlay :: TextOverlay where
  "top_overlay =
     \<lparr>text = ''Hi'', TextOverlay.start_time = 0, TextOverlay.duration = 5,
      position = PTuple [PStr ''center'', PStr ''top''], font_size = 50,
      color = ''white'', font = ''Arial''\<rparr>"

definition top_overlay_loaded :: TextOverlay where
  "top_overlay_loaded = top_overlay\<lparr>position := PList [PStr ''center'', PStr ''top'']\<rparr>"

definition hi_top :: text_widgets where
  "hi_top =
     \<lparr>text_input = ''Hi'', text_duration_spin = 5, position_combo = ''top'',
      font_size_spin = 50, font_combo = ''Arial''\<rparr>"

text \<open>A five second clip is open, in point 0 and out point 5.\<close>

definition opened :: editor where
  "opened = init_editor\<lparr>current_video_path := Some ''a.mp4'', clip_duration := 5,
                         out_time := 5\<rparr>"

text \<open>A timeline with one segment and one overlay at the top.\<close>

definition populated :: editor where
  "populated = init_editor\<lparr>video_segments := [one_segment],
                            editor.text_overlays := [top_overlay]\<rparr>"

text \<open>The effects the export skips.\<close>

definition is_skipped :: "pydict \<Rightarrow> bool" where
  "is_skipped effect =
     (map_of effect ''type'' = Some (PStr ''contrast'')
      \<or> map_of effect ''type'' = Some (PStr ''blur''))"

definition without_skipped :: "VideoSegment \<Rightarrow> VideoSegment" where
  "without_skipped segment =
     segment\<lparr>effects := filter (\<lambda>e. \<not> is_skipped e) (effects segment)\<rparr>"

text \<open>
  An engine for the examples: a clip is the list of the names of what went into it,
  no operation fails, every clip has audio.
\<close>

definition trace_engine :: "string list engine" where
  "trace_engine =
     \<lparr>VideoFileClip_subclip = (\<lambda>p s e. Inr [p]),
      vfx_speedx = (\<lambda>f c. Inr (c @ [''speedx''])),
      vfx_colorx = (\<lambda>v c. Inr (c @ [''colorx''])),
      clip_rotate = (\<lambda>v c. Inr (c @ [''rotate''])),
      vfx_mirror_x = (\<lambda>c. Inr (c @ [''mirror_x''])),
      vfx_mirror_y = (\<lambda>c. Inr (c @ [''mirror_y''])),
      vfx_blackwhite = (\<lambda>c. Inr (c @ [''blackwhite''])),
      clip_audio = (\<lambda>c. True),
      clip_volumex = (\<lambda>v c. Inr (c @ [''volumex''])),
      concatenate_videoclips = (\<lambda>cs. Inr (concat cs)),
      TextClip_of = (\<lambda>ov. Inr [text ov]),
      CompositeVideoClip = (\<lambda>cs. Inr (concat cs)),
      write_videofile = (\<lambda>c p codec bitrate fps. None)\<rparr>"

definition contrast_widgets :: effect_widgets where
  "contrast_widgets =
     \<lparr>brightness_slider = 120, contrast_slider = 150, rotation_spin = 0, speed_spin = 1,
      blackwhite_check = False, mirror_x_check = False, mirror_y_check = False\<rparr>"

text \<open>An editor with two segments, a.mp4 and b.mp4, and an export started on it.\<close>

definition two_clip_app :: app where
  "two_clip_app = fold app_command
     [OpenVideo ''a.mp4'' (Some 5), AddSegment, OpenVideo ''b.mp4'' (Some 3), AddSegment] init_app"

definition mp4_settings :: pydict where
  "mp4_settings = [(''codec'', PStr ''libx264''), (''bitrate'', PStr ''5000k''), (''fps'', PNone)]"

definition export_job_thread :: ExportThread where
  "export_job_thread = \<lparr>segments = 0, text_overlays = 1, output_path = ''out.mp4'',
     settings = mp4_settings\<rparr>"

definition exporting_app :: app where
  "exporting_app = two_clip_app\<lparr>export_thread := Some export_job_thread\<rparr>"

text \<open>A second export started while the first thread object is still referenced.\<close>

definition exporting_again :: app where
  "exporting_again =
     exporting_app\<lparr>export_thread := Some (export_job_thread\<lparr>output_path := ''again.mp4''\<rparr>)\<rparr>"

text \<open>
  A project file whose only segment runs from 0 to 5 and is stored with duration 10, and
  the segment read from it.
\<close>

definition long_segment :: VideoSegment where
  "long_segment = one_segment\<lparr>VideoSegment.duration := 10\<rparr>"

definition long_project :: json where
  "long_project = JObj
     [(''segments'', JArr [JObj
        [(''path'', JStr ''a.mp4''), (''start_time'', JFloat 0), (''end_time'', JFloat 5),
         (''duration'', JFloat 10), (''effects'', JArr []), (''volume'', JFloat 1),
         (''speed'', JFloat 1)]]),
      (''text_overlays'', JArr [])]"

text \<open>The scenario timeline built with commands: a.mp4 at speed 1, b.mp4 at speed 2.\<close>

definition double_speed :: effect_widgets where
  "double_speed = \<lparr>brightness_slider = 100, contrast_slider = 100, rotation_spin = 0,
     speed_spin = 2, blackwhite_check = False, mirror_x_check = False,
     mirror_y_check = False\<rparr>"

definition scenario_commands :: "command list" where
  "scenario_commands =
     [OpenVideo ''a.mp4'' (Some 5), AddSegment, OpenVideo ''b.mp4'' (Some 3), AddSegment,
      ItemClicked 1, ApplyEffects double_speed]"

text \<open>A segment of speed 0.\<close>

definition stopped_segment :: VideoSegment where
  "stopped_segment = one_segment\<lparr>speed := 0\<rparr>"

section \<open>Basic facts\<close>

lemma total_duration_loop_sum:
  "\<forall>s \<in> set segs. speed s \<noteq> 0 \<Longrightarrow>
   total_duration_loop segs t = Inr (t + (\<Sum>s\<leftarrow>segs. VideoSegment.duration s / speed s))"
  by (induction segs arbitrary: t) (simp_all add: add.assoc)

lemma total_duration_loop_zero:
  "\<exists>s \<in> set segs. speed s = 0 \<Longrightarrow> total_duration_loop segs t = Inl ZeroDivisionError"
  by (induction segs arbitrary: t) auto

lemma then_display_Done:
  "\<forall>s \<in> set (video_segments st). speed s \<noteq> 0 \<Longrightarrow> then_display st = Done st"
  by (simp add: then_display_def update_timeline_display_def total_duration_loop_sum)

lemma then_display_cases:
  "then_display st = Done st \<or> then_display st = Raised ZeroDivisionError st"
proof (cases "\<forall>s \<in> set (video_segments st). speed s \<noteq> 0")
  case True
  then show ?thesis by (simp add: then_display_Done)
next
  case False
  then have "total_duration_loop (video_segments st) 0 = Inl ZeroDivisionError"
    using total_duration_loop_zero by blast
  then show ?thesis by (simp add: then_display_def update_timeline_display_def)
qed

lemma then_display_DoneD:
  assumes "then_display st = Done st'"
  shows "st' = st"
    and "video_segments st2 = video_segments st \<Longrightarrow> then_display st2 = Done st2"
  using assms
  by (auto simp: then_display_def update_timeline_display_def split: sum.splits)

lemma outcome_state_simps [simp]:
  "outcome_state st (Done s) = s"
  "outcome_state st (Refused d) = st"
  "outcome_state st (Raised e s) = s"
  by (simp_all add: outcome_state_def)

lemma outcome_state_then_display [simp]: "outcome_state st0 (then_display st) = st"
  using then_display_cases [of st] by (auto simp: outcome_state_def)

lemma save_state_fields [simp]:
  "video_segments (save_state st) = video_segments st"
  "text_overlays (save_state st) = text_overlays st"
  "current_segment_index (save_state st) = current_segment_index st"
  "in_time (save_state st) = in_time st"
  "out_time (save_state st) = out_time st"
  "clip_duration (save_state st) = clip_duration st"
  "current_video_path (save_state st) = current_video_path st"
  "text_color (save_state st) = text_color st"
  "redo_stack (save_state st) = []"
  by (simp_all add: save_state_def Let_def)

section \<open>Range setters\<close>

text \<open>
  C5 (as the code has it). In a range state with \<open>0 \<le> in_time \<le> out_time \<le> clip_duration\<close>
  and for a player position in \<open>[0, clip_duration]\<close>: \<open>set_out_point\<close> at a position below
  \<open>in_time\<close> ends with \<open>in_time = out_time = position\<close>; \<open>set_in_point\<close> at a position
  above \<open>out_time\<close> ends with \<open>in_time = out_time = position\<close> when \<open>out_time\<close> is not 0,
  and leaves \<open>out_time\<close> at 0 when it is 0 (the setter treats 0 as "no out point").
  No other attribute changes.
\<close>

theorem range_setters_drag_other_bound:
  assumes "0 \<le> in_time st" and "in_time st \<le> out_time st"
    and "out_time st \<le> clip_duration st"
    and "pos = real_of_int pos_ms / 1000" and "0 \<le> pos" and "pos \<le> clip_duration st"
  shows "(pos < in_time st \<longrightarrow>
            set_out_point pos_ms st = Done (st\<lparr>out_time := pos, in_time := pos\<rparr>))
       \<and> (pos > out_time st \<and> out_time st \<noteq> 0 \<longrightarrow>
            set_in_point pos_ms st = Done (st\<lparr>in_time := pos, out_time := pos\<rparr>))
       \<and> (pos > out_time st \<and> out_time st = 0 \<longrightarrow>
            set_in_point pos_ms st = Done (st\<lparr>in_time := pos\<rparr>))"
  using assms by (auto simp: set_out_point_def set_in_point_def Let_def)

theorem range_setters_drag_other_bound_witness:
  "0 \<le> in_time range_4_6 \<and> in_time range_4_6 \<le> out_time range_4_6
   \<and> out_time range_4_6 \<le> clip_duration range_4_6
   \<and> set_out_point 2000 range_4_6 = Done (range_4_6\<lparr>out_time := 2, in_time := 2\<rparr>)
   \<and> set_in_point 8000 range_4_6 = Done (range_4_6\<lparr>in_time := 8, out_time := 8\<rparr>)
   \<and> set_in_point 5000 out_at_zero = Done (out_at_zero\<lparr>in_time := 5\<rparr>)"
  using range_setters_drag_other_bound [of range_4_6 2 2000]
    range_setters_drag_other_bound [of range_4_6 8 8000]
    range_setters_drag_other_bound [of out_at_zero 5 5000]
  by (simp add: range_4_6_def out_at_zero_def init_editor_def)

text \<open>
  C5 as stated fails: the state \<open>out_at_zero\<close> is reached by opening a ten second clip
  and setting the out point at position 0; it satisfies the range invariant. Setting the
  in point at 5 seconds, above \<open>out_time\<close>, leaves \<open>in_time = 5\<close> and \<open>out_time = 0\<close>.
\<close>

theorem set_in_point_keeps_zero_out_counterexample:
  "open_video ''a.mp4'' (Some 10) init_editor
     = Done (out_at_zero\<lparr>out_time := 10\<rparr>)
   \<and> set_out_point 0 (out_at_zero\<lparr>out_time := 10\<rparr>) = Done out_at_zero
   \<and> 0 \<le> in_time out_at_zero \<and> in_time out_at_zero \<le> out_time out_at_zero
   \<and> out_time out_at_zero \<le> clip_duration out_at_zero
   \<and> real_of_int 5000 / 1000 \<le> clip_duration out_at_zero
   \<and> real_of_int 5000 / 1000 > out_time out_at_zero
   \<and> set_in_point 5000 out_at_zero = Done (out_at_zero\<lparr>in_time := 5\<rparr>)
   \<and> in_time (out_at_zero\<lparr>in_time := 5\<rparr>) = 5
   \<and> out_time (out_at_zero\<lparr>in_time := 5\<rparr>) = 0"
  by (simp add: out_at_zero_def init_editor_def open_video_def set_out_point_def
      set_in_point_def)

section \<open>Removing a segment\<close>

text \<open>
  C6 (as the code has it). \<open>remove_segment\<close> with a selection index out of range returns
  normally, reports nothing and leaves the whole state unchanged. With a valid index it
  records an undo snapshot, deletes exactly the selected segment and sets the selection
  index to -1; the outcome is \<open>Done\<close> whenever no remaining segment has speed 0.
\<close>

theorem remove_segment_behaviour:
  "(\<not> (0 \<le> current_segment_index st
        \<and> current_segment_index st < int (length (video_segments st)))
      \<longrightarrow> remove_segment st = Done st)
   \<and> (0 \<le> current_segment_index st
        \<and> current_segment_index st < int (length (video_segments st))
      \<longrightarrow> (let st' = (save_state st)\<lparr>video_segments :=
                           take (nat (current_segment_index st)) (video_segments st)
                           @ drop (Suc (nat (current_segment_index st))) (video_segments st),
                         current_segment_index := -1\<rparr>
           in outcome_state st (remove_segment st) = st'
              \<and> ((\<forall>s \<in> set (video_segments st'). speed s \<noteq> 0)
                    \<longrightarrow> remove_segment st = Done st')))"
  by (auto simp: remove_segment_def Let_def del_item_def then_display_Done)

theorem remove_segment_behaviour_witness:
  "remove_segment stale_selection = Done stale_selection
   \<and> remove_segment selected_one
       = Done ((save_state selected_one)\<lparr>video_segments := [], current_segment_index := -1\<rparr>)"
  using remove_segment_behaviour [of stale_selection] remove_segment_behaviour [of selected_one]
  by (simp add: stale_selection_def selected_one_def init_editor_def Let_def)

text \<open>
  C6 as stated fails: with one segment and selection index 1 (out of range) the method
  returns normally with the state unchanged; no failure is reported.
\<close>

theorem remove_segment_out_of_range_counterexample:
  "\<not> (0 \<le> current_segment_index stale_selection
       \<and> current_segment_index stale_selection < int (length (video_segments stale_selection)))
   \<and> remove_segment stale_selection = Done stale_selection
   \<and> \<not> failed (remove_segment stale_selection)"
  by (simp add: stale_selection_def init_editor_def remove_segment_def failed_def)

section \<open>Applying effects twice\<close>

lemma apply_effects_to_idem:
  "apply_effects_to w (apply_effects_to w s) = apply_effects_to w s"
  by (simp add: apply_effects_to_def Let_def)

lemma apply_effects_to_effects:
  "effects (apply_effects_to w s) = widget_effects w"
  by (simp add: apply_effects_to_def Let_def append_if_def widget_effects_def)

text \<open>
  C8. When \<open>apply_effects\<close> has succeeded on the selected segment, calling it again with
  the same widget values succeeds and changes only the history: the segment list and the
  overlay list are the same as after the first call, and the selected segment carries
  exactly the effects built from the widgets and the given speed.
\<close>

theorem apply_effects_idempotent:
  assumes "apply_effects w st = Done st1"
  shows "apply_effects w st1 = Done (save_state st1)
       \<and> video_segments (save_state st1) = video_segments st1
       \<and> text_overlays (save_state st1) = text_overlays st1
       \<and> effects (video_segments st1 ! nat (current_segment_index st1)) = widget_effects w
       \<and> speed (video_segments st1 ! nat (current_segment_index st1)) = speed_spin w"
proof -
  let ?i = "nat (current_segment_index st)"
  let ?vs = "video_segments st"
  let ?mid = "(save_state st)\<lparr>video_segments := ?vs[?i := apply_effects_to w (?vs ! ?i)]\<rparr>"
  from assms have valid: "0 \<le> current_segment_index st"
      "current_segment_index st < int (length ?vs)"
    by (auto simp: apply_effects_def split: if_splits)
  with assms have disp: "then_display ?mid = Done st1"
    by (simp add: apply_effects_def Let_def)
  then have st1: "st1 = ?mid" by (rule then_display_DoneD(1))
  have idx: "current_segment_index st1 = current_segment_index st"
    and len: "length (video_segments st1) = length ?vs"
    and vs1: "video_segments st1 = ?vs[?i := apply_effects_to w (?vs ! ?i)]"
    by (simp_all add: st1)
  have ilt: "?i < length ?vs" using valid by simp
  have seg: "video_segments st1 ! ?i = apply_effects_to w (?vs ! ?i)"
    using ilt by (simp add: vs1)
  have same: "(video_segments st1)[?i := apply_effects_to w (video_segments st1 ! ?i)]
                = video_segments st1"
    by (simp add: seg apply_effects_to_idem) (simp add: vs1)
  have d1: "then_display st1 = Done st1"
    using disp by (simp only: flip: st1)
  have sd: "then_display (save_state st1) = Done (save_state st1)"
    by (rule then_display_DoneD(2)[OF d1]) simp
  have upd: "(save_state st1)\<lparr>video_segments := video_segments st1\<rparr> = save_state st1"
    by (simp add: save_state_def Let_def)
  have "apply_effects w st1 = then_display ((save_state st1)\<lparr>video_segments :=
          (video_segments st1)[?i := apply_effects_to w (video_segments st1 ! ?i)]\<rparr>)"
    using valid by (simp add: apply_effects_def Let_def idx len)
  with sd have "apply_effects w st1 = Done (save_state st1)"
    by (simp only: same upd)
  moreover have "effects (video_segments st1 ! nat (current_segment_index st1)) = widget_effects w"
    by (simp add: idx seg apply_effects_to_effects)
  moreover have "speed (video_segments st1 ! nat (current_segment_index st1)) = speed_spin w"
    by (simp add: idx seg apply_effects_to_def Let_def)
  ultimately show ?thesis by simp
qed

text \<open>The scenario of C8: brightness 1.2 and grayscale, applied twice, leave two effects.\<close>

lemma apply_bright_gray_once:
  "apply_effects bright_gray selected_one
     = Done ((save_state selected_one)\<lparr>video_segments :=
         [one_segment\<lparr>effects := [[(''type'', PStr ''brightness''), (''value'', PFloat 1.2)],
                                   [(''type'', PStr ''blackwhite'')]]\<rparr>]\<rparr>)"
  by (simp add: apply_effects_def selected_one_def init_editor_def one_segment_def
      bright_gray_def Let_def apply_effects_to_def append_if_def then_display_def
      update_timeline_display_def save_state_def)

theorem apply_effects_idempotent_witness:
  "(let st1 = (save_state selected_one)\<lparr>video_segments :=
         [one_segment\<lparr>effects := [[(''type'', PStr ''brightness''), (''value'', PFloat 1.2)],
                                   [(''type'', PStr ''blackwhite'')]]\<rparr>]\<rparr>
    in apply_effects bright_gray selected_one = Done st1
       \<and> apply_effects bright_gray st1 = Done (save_state st1)
       \<and> video_segments (save_state st1) = video_segments st1
       \<and> length (effects (video_segments (save_state st1) ! 0)) = 2)"
proof -
  have "length (effects (one_segment\<lparr>effects :=
          [[(''type'', PStr ''brightness''), (''value'', PFloat 1.2)],
           [(''type'', PStr ''blackwhite'')]]\<rparr>)) = 2"
    by simp
  then show ?thesis
    unfolding Let_def
    using apply_effects_idempotent [OF apply_bright_gray_once] apply_bright_gray_once
    by (simp del: length_Cons)
qed

section \<open>History stacks\<close>

text \<open>
  \<open>restore_state\<close> and \<open>load_project\<close> change nothing but the two lists, whatever the
  document and also when they raise.
\<close>

lemma same_attrs_refl [simp]: "same_attrs a a"
  by (simp add: same_attrs_def)

lemma same_attrs_trans: "same_attrs a b \<Longrightarrow> same_attrs b c \<Longrightarrow> same_attrs a c"
  by (simp add: same_attrs_def)

lemma same_attrs_lists [simp]:
  "same_attrs (a\<lparr>video_segments := xs\<rparr>) b = same_attrs a b"
  "same_attrs (a\<lparr>editor.text_overlays := ys\<rparr>) b = same_attrs a b"
  "same_attrs a (b\<lparr>video_segments := xs\<rparr>) = same_attrs a b"
  "same_attrs a (b\<lparr>editor.text_overlays := ys\<rparr>) = same_attrs a b"
  by (simp_all add: same_attrs_def)

lemma same_attrs_fields:
  assumes "same_attrs a b"
  shows "undo_stack a = undo_stack b" and "redo_stack a = redo_stack b"
    and "current_segment_index a = current_segment_index b"
    and "in_time a = in_time b" and "out_time a = out_time b"
    and "clip_duration a = clip_duration b"
    and "current_video_path a = current_video_path b" and "text_color a = text_color b"
proof -
  let ?f = "\<lambda>s. s\<lparr>video_segments := [], editor.text_overlays := []\<rparr>"
  from assms have e: "?f a = ?f b" by (simp add: same_attrs_def)
  show "undo_stack a = undo_stack b" using arg_cong [OF e, of undo_stack] by simp
  show "redo_stack a = redo_stack b" using arg_cong [OF e, of redo_stack] by simp
  show "current_segment_index a = current_segment_index b"
    using arg_cong [OF e, of current_segment_index] by simp
  show "in_time a = in_time b" using arg_cong [OF e, of in_time] by simp
  show "out_time a = out_time b" using arg_cong [OF e, of out_time] by simp
  show "clip_duration a = clip_duration b" using arg_cong [OF e, of clip_duration] by simp
  show "current_video_path a = current_video_path b"
    using arg_cong [OF e, of current_video_path] by simp
  show "text_color a = text_color b" using arg_cong [OF e, of text_color] by simp
qed

lemma append_segments_attrs:
  "same_attrs (outcome_state st0 (append_segments ds st)) st
   \<and> (\<forall>d. append_segments ds st \<noteq> Refused d)"
proof (induction ds arbitrary: st)
  case Nil
  show ?case by simp
next
  case (Cons d ds)
  show ?case
  proof (cases "VideoSegment_kwargs d")
    case (Inl e)
    then show ?thesis by simp
  next
    case (Inr segment)
    with Cons.IH [of "st\<lparr>video_segments := video_segments st @ [segment]\<rparr>"]
    show ?thesis by simp
  qed
qed

lemma append_overlays_attrs:
  "same_attrs (outcome_state st0 (append_overlays ds st)) st
   \<and> (\<forall>d. append_overlays ds st \<noteq> Refused d)"
proof (induction ds arbitrary: st)
  case Nil
  show ?case by simp
next
  case (Cons d ds)
  show ?case
  proof (cases "TextOverlay_kwargs d")
    case (Inl e)
    then show ?thesis by simp
  next
    case (Inr overlay)
    with Cons.IH [of "st\<lparr>editor.text_overlays := editor.text_overlays st @ [overlay]\<rparr>"]
    show ?thesis by simp
  qed
qed

lemma for_each_of_attrs:
  assumes "\<And>xs s. same_attrs (outcome_state st0 (body xs s)) s \<and> (\<forall>d. body xs s \<noteq> Refused d)"
  shows "same_attrs (outcome_state st0 (for_each_of state k body st)) st
         \<and> (\<forall>d. for_each_of state k body st \<noteq> Refused d)"
  using assms by (auto simp: for_each_of_def split: sum.splits)

lemma two_loops_attrs:
  assumes a: "same_attrs (outcome_state st0 ra) sa" "\<And>d. ra \<noteq> Refused d"
    and b: "\<And>st1. same_attrs (outcome_state st0 (rb st1)) (g st1) \<and> (\<forall>d. rb st1 \<noteq> Refused d)"
    and g: "\<And>st1. same_attrs (g st1) st1"
  shows "same_attrs (outcome_state st0
           (case ra of Done st1 \<Rightarrow> (case rb st1 of Done st2 \<Rightarrow> then_display st2 | other \<Rightarrow> other)
                     | other \<Rightarrow> other)) sa"
proof (cases ra)
  case (Done st1)
  with a have s1: "same_attrs st1 sa" by simp
  show ?thesis
  proof (cases "rb st1")
    case (Done st2)
    with b [of st1] have "same_attrs st2 (g st1)" by simp
    with g [of st1] s1 have "same_attrs st2 sa" using same_attrs_trans by blast
    with \<open>ra = Done st1\<close> Done show ?thesis by simp
  next
    case (Refused d) with b [of st1] show ?thesis by blast
  next
    case (Raised e s)
    with b [of st1] have "same_attrs s (g st1)" by simp
    with g [of st1] s1 have "same_attrs s sa" using same_attrs_trans by blast
    with \<open>ra = Done st1\<close> Raised show ?thesis by simp
  qed
next
  case (Refused d) with a(2) show ?thesis by blast
next
  case (Raised e s) with a(1) show ?thesis by simp
qed

lemma restore_state_attrs: "same_attrs (outcome_state st0 (restore_state j st)) st"
proof -
  let ?ra = "for_each_of (loads j) ''segments'' append_segments (st\<lparr>video_segments := []\<rparr>)"
  let ?rb = "\<lambda>st1. for_each_of (loads j) ''text_overlays'' append_overlays
                     (st1\<lparr>editor.text_overlays := []\<rparr>)"
  have a: "same_attrs (outcome_state st0 ?ra) (st\<lparr>video_segments := []\<rparr>)"
      "\<And>d. ?ra \<noteq> Refused d"
    using for_each_of_attrs [of st0 append_segments "loads j" "''segments''"
        "st\<lparr>video_segments := []\<rparr>", OF append_segments_attrs] by blast+
  have b: "\<And>st1. same_attrs (outcome_state st0 (?rb st1)) (st1\<lparr>editor.text_overlays := []\<rparr>)
                 \<and> (\<forall>d. ?rb st1 \<noteq> Refused d)"
    by (rule for_each_of_attrs [of st0 append_overlays, OF append_overlays_attrs])
  have "same_attrs (outcome_state st0 (restore_state j st)) (st\<lparr>video_segments := []\<rparr>)"
    unfolding restore_state_def Let_def
    by (rule two_loops_attrs [where rb = ?rb and g = "\<lambda>s. s\<lparr>editor.text_overlays := []\<rparr>",
          OF a b]) simp
  then show ?thesis by simp
qed

lemma load_project_attrs: "same_attrs (outcome_state st0 (load_project doc st)) st"
proof -
  let ?s = "st\<lparr>video_segments := [], editor.text_overlays := []\<rparr>"
  let ?ra = "for_each_of (loads doc) ''segments'' append_segments ?s"
  let ?rb = "\<lambda>st1. for_each_of (loads doc) ''text_overlays'' append_overlays st1"
  have a: "same_attrs (outcome_state st0 ?ra) ?s" "\<And>d. ?ra \<noteq> Refused d"
    using for_each_of_attrs [of st0 append_segments "loads doc" "''segments''" ?s,
        OF append_segments_attrs] by blast+
  have b: "\<And>st1. same_attrs (outcome_state st0 (?rb st1)) st1 \<and> (\<forall>d. ?rb st1 \<noteq> Refused d)"
    by (rule for_each_of_attrs [of st0 append_overlays, OF append_overlays_attrs])
  have "same_attrs (outcome_state st0 (load_project doc st)) ?s"
    unfolding load_project_def Let_def
    by (rule two_loops_attrs [where rb = ?rb and g = "\<lambda>s. s", OF a b]) simp
  then show ?thesis by simp
qed

lemma restore_state_history:
  "same_history (outcome_state st0 (restore_state j st)) st"
  using same_attrs_fields(1,2) [OF restore_state_attrs [of st0 j st]]
  by (simp add: same_history_def)

lemma load_project_history:
  "same_history (outcome_state st0 (load_project doc st)) st"
  using same_attrs_fields(1,2) [OF load_project_attrs [of st0 doc st]]
  by (simp add: same_history_def)

lemma save_state_bounded:
  "history_bounded st \<Longrightarrow> history_bounded (save_state st)"
  by (auto simp: history_bounded_def save_state_def Let_def)

lemma same_history_bounded:
  "same_history a b \<Longrightarrow> history_bounded b \<Longrightarrow> history_bounded a"
  by (simp add: same_history_def history_bounded_def)

lemma then_display_bounded:
  "history_bounded st \<Longrightarrow> history_bounded (outcome_state st0 (then_display st))"
  by simp

lemma undo_bounded:
  assumes "history_bounded st" shows "history_bounded (outcome_state st (undo st))"
proof (cases "undo_stack st = []")
  case True then show ?thesis using assms by (simp add: undo_def outcome_state_def)
next
  case False
  let ?st2 = "st\<lparr>redo_stack := redo_stack st @ [dumps (state_dict st)],
                  undo_stack := butlast (undo_stack st)\<rparr>"
  have "history_bounded ?st2" using assms False
    by (cases "undo_stack st" rule: rev_cases) (auto simp: history_bounded_def)
  moreover have "undo st = restore_state (last (undo_stack st)) ?st2"
    using False by (simp add: undo_def Let_def)
  ultimately show ?thesis
    using restore_state_history [of st "last (undo_stack st)" ?st2] same_history_bounded by metis
qed

lemma redo_bounded:
  assumes "history_bounded st" shows "history_bounded (outcome_state st (redo st))"
proof (cases "redo_stack st = []")
  case True then show ?thesis using assms by (simp add: redo_def outcome_state_def)
next
  case False
  let ?st2 = "st\<lparr>undo_stack := undo_stack st @ [dumps (state_dict st)],
                  redo_stack := butlast (redo_stack st)\<rparr>"
  have "history_bounded ?st2" using assms False
    by (cases "redo_stack st" rule: rev_cases) (auto simp: history_bounded_def)
  moreover have "redo st = restore_state (last (redo_stack st)) ?st2"
    using False by (simp add: redo_def Let_def)
  ultimately show ?thesis
    using restore_state_history [of st "last (redo_stack st)" ?st2] same_history_bounded by metis
qed

lemma history_step_bounded:
  "history_step st st' \<Longrightarrow> history_bounded st \<Longrightarrow> history_bounded st'"
  using save_state_bounded same_history_bounded unfolding history_step_def by blast

lemma add_segment_history: "history_step st (outcome_state st (add_segment_to_timeline st))"
  by (auto simp: add_segment_to_timeline_def Let_def history_step_def same_history_def
      split: option.splits)

lemma move_up_history: "history_step st (outcome_state st (move_segment_up st))"
  by (auto simp: move_segment_up_def Let_def history_step_def same_history_def
      split: sum.splits)

lemma move_down_history: "history_step st (outcome_state st (move_segment_down st))"
  by (auto simp: move_segment_down_def Let_def history_step_def same_history_def
      split: sum.splits)

lemma remove_segment_history: "history_step st (outcome_state st (remove_segment st))"
  by (auto simp: remove_segment_def Let_def history_step_def same_history_def
      split: sum.splits)

lemma clear_timeline_history: "history_step st (outcome_state st (clear_timeline b st))"
  by (auto simp: clear_timeline_def Let_def history_step_def same_history_def)

lemma apply_effects_history: "history_step st (outcome_state st (apply_effects w st))"
  by (auto simp: apply_effects_def Let_def history_step_def same_history_def)

lemma apply_volume_history: "history_step st (outcome_state st (apply_volume v st))"
  by (auto simp: apply_volume_def Let_def history_step_def same_history_def)

lemma add_text_overlay_history: "history_step st (outcome_state st (add_text_overlay w st))"
  by (auto simp: add_text_overlay_def Let_def history_step_def same_history_def
      split: option.splits)

lemma remove_text_overlay_history: "history_step st (outcome_state st (remove_text_overlay r st))"
  by (auto simp: remove_text_overlay_def Let_def history_step_def same_history_def
      split: sum.splits)

lemma range_commands_history:
  "same_history (outcome_state st (open_video p d st)) st"
  "same_history (outcome_state st (on_duration_changed dur st)) st"
  "same_history (outcome_state st (set_in_point pos st)) st"
  "same_history (outcome_state st (set_out_point pos st)) st"
  "same_history (outcome_state st (on_timeline_item_clicked row st)) st"
  "same_history (outcome_state st (choose_text_color c st)) st"
  by (auto simp: same_history_def open_video_def on_duration_changed_def set_in_point_def
      set_out_point_def on_timeline_item_clicked_def choose_text_color_def Let_def
      split: option.splits)

lemma run_command_bounded:
  assumes "history_bounded st"
  shows "history_bounded (outcome_state st (run_command c st))"
proof (cases c)
  case Undo then show ?thesis using assms by (simp add: undo_bounded)
next
  case Redo then show ?thesis using assms by (simp add: redo_bounded)
next
  case (LoadProject doc)
  then show ?thesis
    using assms load_project_history [of st doc st] same_history_bounded by auto
qed (use assms in \<open>simp_all add: history_step_bounded [OF _ assms] add_segment_history
      move_up_history move_down_history remove_segment_history clear_timeline_history
      apply_effects_history apply_volume_history add_text_overlay_history
      remove_text_overlay_history same_history_bounded [OF _ assms] range_commands_history\<close>)

lemma reachable_bounded: "reachable st \<Longrightarrow> history_bounded st"
proof (induction rule: reachable.induct)
  case reachable_init
  show ?case by (simp add: history_bounded_def init_editor_def)
next
  case (reachable_step st c)
  then show ?case by (simp add: run_command_bounded)
qed


lemma snapshot_of_empty: "dumps (state_dict init_editor) = empty_snapshot"
  by (simp add: state_dict_def init_editor_def empty_snapshot_def)

text \<open>A full undo stack is reachable: clear the (empty) timeline fifty times.\<close>

lemma clear_empty_timeline:
  "k < 50 \<Longrightarrow>
   clear_timeline True (init_editor\<lparr>undo_stack := replicate k empty_snapshot\<rparr>)
     = Done (init_editor\<lparr>undo_stack := replicate (Suc k) empty_snapshot\<rparr>)"
proof -
  have "dumps (state_dict (init_editor\<lparr>undo_stack := replicate k empty_snapshot\<rparr>)) = empty_snapshot"
    by (simp add: state_dict_def init_editor_def empty_snapshot_def)
  moreover assume "k < 50"
  ultimately show ?thesis
    by (simp add: clear_timeline_def save_state_def Let_def then_display_def
        update_timeline_display_def init_editor_def replicate_append_same)
qed

lemma reachable_replicate:
  "k \<le> 50 \<Longrightarrow> reachable (init_editor\<lparr>undo_stack := replicate k empty_snapshot\<rparr>)"
proof (induction k)
  case 0
  have "init_editor\<lparr>undo_stack := replicate 0 empty_snapshot\<rparr> = init_editor"
    by (simp add: init_editor_def)
  then show ?case by (simp add: reachable_init)
next
  case (Suc k)
  then have r: "reachable (init_editor\<lparr>undo_stack := replicate k empty_snapshot\<rparr>)" and k: "k < 50"
    by simp_all
  from reachable_step [OF r, of "ClearTimeline True"] clear_empty_timeline [OF k]
  show ?case by simp
qed

lemma reachable_full_history: "reachable full_history"
  unfolding full_history_def by (rule reachable_replicate) simp

text \<open>
  C3. In every state reachable by any sequence of commands (mutations, undo, redo, also
  loading a project) the two stacks together hold at most 50 snapshots, hence each holds
  at most 50. The only push that can meet a full stack is the one of \<open>save_state\<close>: on a
  stack of 50 or more it drops the oldest (first) entry and puts the new snapshot on
  top; below 50 it only appends.
\<close>

theorem history_stacks_bounded:
  "(reachable st \<longrightarrow>
      length (undo_stack st) \<le> 50 \<and> length (redo_stack st) \<le> 50
      \<and> length (undo_stack st) + length (redo_stack st) \<le> 50)
   \<and> (length (undo_stack st) \<ge> 50 \<longrightarrow>
        undo_stack (save_state st) = tl (undo_stack st) @ [dumps (state_dict st)])
   \<and> (length (undo_stack st) < 50 \<longrightarrow>
        undo_stack (save_state st) = undo_stack st @ [dumps (state_dict st)])"
proof -
  have "reachable st \<Longrightarrow> length (undo_stack st) + length (redo_stack st) \<le> 50"
    using reachable_bounded [of st] by (simp add: history_bounded_def)
  moreover have "length (undo_stack st) \<ge> 50 \<Longrightarrow>
      undo_stack (save_state st) = tl (undo_stack st) @ [dumps (state_dict st)]"
    by (cases "undo_stack st") (auto simp: save_state_def Let_def)
  moreover have "length (undo_stack st) < 50 \<Longrightarrow>
      undo_stack (save_state st) = undo_stack st @ [dumps (state_dict st)]"
    by (auto simp: save_state_def Let_def)
  ultimately show ?thesis by auto
qed

theorem history_stacks_bounded_witness:
  "reachable full_history
   \<and> length (undo_stack full_history) = 50 \<and> length (redo_stack full_history) = 0
   \<and> undo_stack (save_state full_history)
       = replicate 49 empty_snapshot @ [dumps (state_dict full_history)]
   \<and> undo_stack (save_state init_editor) = [empty_snapshot]"
  using history_stacks_bounded [of full_history] history_stacks_bounded [of init_editor]
    reachable_full_history snapshot_of_empty
  by (simp add: full_history_def init_editor_def)

section \<open>Snapshots and project files through JSON\<close>

text \<open>
  What comes back from a document written from the editor state: every segment with
  JSON-stable effects comes back equal; an overlay comes back with its position passed
  through JSON and is otherwise equal.
\<close>

lemma those_as_dict: "those (map (as_dict \<circ> PDict) es) = Some es"
  by (induction es) (simp_all add: as_dict_def)

lemma stable_effects:
  "list_all (\<lambda>e. json_stable (PDict e)) es \<Longrightarrow> map (\<lambda>x. loads (dumps (PDict x))) es = map PDict es"
  by (induction es) (simp_all add: json_stable_def)

lemma segment_roundtrip:
  assumes "stable_segment s"
  shows "VideoSegment_kwargs (loads (dumps (VideoSegment_to_dict s))) = Inr s"
proof -
  have e: "map (loads \<circ> (dumps \<circ> PDict)) (effects s) = map PDict (effects s)"
    using stable_effects [OF assms [unfolded stable_segment_def]] by (simp add: comp_def)
  show ?thesis
    by (simp add: VideoSegment_to_dict_def dict_of_def e VideoSegment_kwargs_def
        VideoSegment_fields_def kw_required_def kw_default_def as_str_def as_float_def
        as_effects_def those_as_dict)
qed

lemma overlay_roundtrip:
  "TextOverlay_kwargs (loads (dumps (TextOverlay_to_dict ov))) = Inr (reloaded ov)"
  by (simp add: TextOverlay_to_dict_def dict_of_def TextOverlay_kwargs_def
        TextOverlay_fields_def kw_required_def kw_default_def as_str_def as_float_def
        as_int_def reloaded_def)


lemma append_segments_roundtrip:
  "list_all stable_segment segs \<Longrightarrow>
   append_segments (map (\<lambda>s. loads (dumps (VideoSegment_to_dict s))) segs) st
     = Done (st\<lparr>video_segments := video_segments st @ segs\<rparr>)"
  by (induction segs arbitrary: st) (simp_all add: segment_roundtrip)

lemma append_overlays_roundtrip:
  "append_overlays (map (\<lambda>ov. loads (dumps (TextOverlay_to_dict ov))) ovs) st
     = Done (st\<lparr>editor.text_overlays := editor.text_overlays st @ map reloaded ovs\<rparr>)"
  by (induction ovs arbitrary: st) (simp_all add: overlay_roundtrip)

lemma restore_snapshot:
  assumes "list_all stable_segment (video_segments st0)"
  shows "restore_state (dumps (state_dict st0)) st
     = then_display (st\<lparr>video_segments := video_segments st0,
                           editor.text_overlays := map reloaded (editor.text_overlays st0)\<rparr>)"
  using assms
  by (simp add: restore_state_def state_dict_def dict_of_def for_each_of_def py_get_def
      py_iter_def comp_def append_segments_roundtrip append_overlays_roundtrip)

lemma load_saved_project:
  assumes "list_all stable_segment (video_segments st0)"
  shows "load_project (save_project st0) st
     = then_display (st\<lparr>video_segments := video_segments st0,
                           editor.text_overlays := map reloaded (editor.text_overlays st0)\<rparr>)"
  using assms
  by (simp add: load_project_def save_project_def project_data_def dict_of_def for_each_of_def
      py_get_def py_iter_def comp_def append_segments_roundtrip append_overlays_roundtrip)


lemma then_display_Done_iff: "then_display st = Done st' \<longleftrightarrow> st' = st \<and> nonzero_speeds st"
proof (cases "nonzero_speeds st")
  case True
  then show ?thesis using then_display_Done [of st] by (auto simp: nonzero_speeds_def list_all_iff)
next
  case False
  then have "\<exists>s \<in> set (video_segments st). speed s = 0" by (auto simp: nonzero_speeds_def list_all_iff)
  then have "then_display st = Raised ZeroDivisionError st"
    using total_duration_loop_zero by (simp add: then_display_def update_timeline_display_def)
  with False show ?thesis by simp
qed

lemma last_undo_save_state: "last (undo_stack (save_state st)) = dumps (state_dict st)"
  by (cases "undo_stack st") (auto simp: save_state_def Let_def)

lemma undo_stack_save_state_nonempty: "undo_stack (save_state st) \<noteq> []"
  by (cases "undo_stack st") (auto simp: save_state_def Let_def)

section \<open>Saving and loading a project\<close>

lemmas eval_defs = undo_def redo_def restore_state_def load_project_def save_project_def
  project_data_def for_each_of_def py_get_def py_iter_def
  TextOverlay_kwargs_def VideoSegment_kwargs_def kw_required_def kw_default_def
  TextOverlay_fields_def VideoSegment_fields_def as_str_def as_float_def as_int_def
  as_effects_def as_dict_def dict_of_def state_dict_def TextOverlay_to_dict_def
  VideoSegment_to_dict_def then_display_def update_timeline_display_def Let_def
  save_state_def


text \<open>
  C2 (evaluation at the failing input). A timeline with one segment and one overlay
  placed at the top is saved and loaded again. Loading succeeds and the segment comes
  back equal, but the overlay's position, the pair \<open>('center', 'top')\<close>, comes back as the
  list \<open>['center', 'top']\<close>, which Python does not count equal to the pair: the loaded
  overlay list differs from the saved one.
\<close>

theorem load_save_changes_overlay_position:
  "load_project (save_project populated) populated
     = Done (populated\<lparr>editor.text_overlays := [top_overlay_loaded]\<rparr>)
   \<and> video_segments (populated\<lparr>editor.text_overlays := [top_overlay_loaded]\<rparr>)
       = video_segments populated
   \<and> editor.text_overlays (populated\<lparr>editor.text_overlays := [top_overlay_loaded]\<rparr>)
       \<noteq> editor.text_overlays populated
   \<and> position top_overlay = PTuple [PStr ''center'', PStr ''top'']
   \<and> position top_overlay_loaded = PList [PStr ''center'', PStr ''top'']"
  by (simp add: eval_defs populated_def init_editor_def one_segment_def top_overlay_def
      top_overlay_loaded_def)

section \<open>Undo and redo\<close>

lemma strip_Hi: "strip ''Hi'' = ''Hi''"
  by (simp add: strip_def is_space_def)

lemma add_top_overlay:
  "add_text_overlay hi_top init_editor
     = Done (init_editor\<lparr>undo_stack := [empty_snapshot],
                          editor.text_overlays := [top_overlay]\<rparr>)"
  by (simp add: add_text_overlay_def hi_top_def strip_Hi position_map_def Let_def save_state_def
       snapshot_of_empty top_overlay_def)
     (simp add: init_editor_def)

text \<open>
  C1 (evaluation at the failing input). From the initial state, adding a text overlay
  at the top succeeds. Undo restores the empty timeline. Redo then succeeds as well, but
  the overlay it restores has the list \<open>['center', 'top']\<close> as position where the
  overlay after the mutation had the pair \<open>('center', 'top')\<close>: the overlay sequence is
  not the one after the mutation.
\<close>

theorem redo_changes_overlay_position:
  "run_command (AddTextOverlay hi_top) init_editor
     = Done (init_editor\<lparr>undo_stack := [empty_snapshot],
                          editor.text_overlays := [top_overlay]\<rparr>)
   \<and> editor.text_overlays (run_commands [AddTextOverlay hi_top, Undo] init_editor) = []
   \<and> video_segments (run_commands [AddTextOverlay hi_top, Undo] init_editor) = []
   \<and> \<not> failed (run_command Redo (run_commands [AddTextOverlay hi_top, Undo] init_editor))
   \<and> editor.text_overlays (run_commands [AddTextOverlay hi_top, Undo, Redo] init_editor)
       = [top_overlay_loaded]
   \<and> top_overlay_loaded \<noteq> top_overlay"
  apply (simp add: add_top_overlay)
  apply (simp add: eval_defs empty_snapshot_def init_editor_def top_overlay_def
      top_overlay_loaded_def failed_def)
  done

lemma undo_after_push:
  assumes "undo_stack st1 = undo_stack (save_state st)"
    and "list_all stable_segment (video_segments st)"
  shows "undo st1 = then_display
           (st1\<lparr>redo_stack := redo_stack st1 @ [dumps (state_dict st1)],
                undo_stack := butlast (undo_stack st1),
                video_segments := video_segments st,
                editor.text_overlays := map reloaded (editor.text_overlays st)\<rparr>)"
  using assms undo_stack_save_state_nonempty [of st] last_undo_save_state [of st]
  by (simp add: undo_def Let_def restore_snapshot)


lemma stable_effect_dicts:
  "json_stable (PDict [(''type'', PStr t), (''value'', PFloat r)])"
  "json_stable (PDict [(''type'', PStr t), (''value'', PInt i)])"
  "json_stable (PDict [(''type'', PStr t)])"
  by (simp_all add: json_stable_def dict_of_def)

lemma list_all_if_single: "list_all P (if c then [x] else []) = (c \<longrightarrow> P x)"
  by simp

lemma stable_apply_effects_to: "stable_segment (apply_effects_to w s)"
  unfolding stable_segment_def apply_effects_to_effects widget_effects_def list_all_append
    list_all_if_single
  by (simp only: stable_effect_dicts simp_thms)

lemma list_all_update:
  assumes "list_all P xs" and "P x"
  shows "list_all P (xs[i := x])"
proof -
  have "set (xs[i := x]) \<subseteq> insert x (set xs)" by (rule set_update_subset_insert)
  with assms show ?thesis by (auto simp: list_all_iff)
qed

lemma list_all_swap: "list_all P xs \<Longrightarrow> i < length xs \<Longrightarrow> j < length xs \<Longrightarrow>
  list_all P (xs[i := xs ! j, j := xs ! i])"
  by (intro list_all_update) (simp_all add: list_all_length)

lemma list_all_del:
  assumes "list_all P xs"
  shows "list_all P (take i xs)" and "list_all P (drop i xs)"
  using assms by (auto simp: list_all_iff dest: in_set_takeD in_set_dropD)

lemma well_kept_segments:
  "well_kept st \<Longrightarrow> list_all (\<lambda>s. stable_segment s \<and> speed s \<noteq> 0) segs \<Longrightarrow>
   video_segments st1 = segs \<Longrightarrow> well_kept st1"
  by (simp add: well_kept_def nonzero_speeds_def list_all_iff)

lemma well_kept_all:
  "well_kept st \<longleftrightarrow> list_all (\<lambda>s. stable_segment s \<and> speed s \<noteq> 0) (video_segments st)"
  by (auto simp: well_kept_def nonzero_speeds_def list_all_iff)

lemma add_segment_mutation:
  assumes "add_segment_to_timeline st = Done st1"
  shows "pushed st st1" and "well_kept st \<Longrightarrow> well_kept st1"
  using assms
  by (auto simp: add_segment_to_timeline_def Let_def then_display_Done_iff pushed_def
      well_kept_def nonzero_speeds_def stable_segment_def split: option.splits if_splits)

lemma move_up_mutation:
  assumes "move_segment_up st = Done st1" and "st1 \<noteq> st"
  shows "pushed st st1" and "well_kept st \<Longrightarrow> well_kept st1"
  using assms
  by (auto simp: move_segment_up_def Let_def then_display_Done_iff pushed_def swap_items_def
      well_kept_all intro!: list_all_swap split: if_splits)

lemma move_down_mutation:
  assumes "move_segment_down st = Done st1" and "st1 \<noteq> st"
  shows "pushed st st1" and "well_kept st \<Longrightarrow> well_kept st1"
  using assms
  by (auto simp: move_segment_down_def Let_def then_display_Done_iff pushed_def swap_items_def
      well_kept_all intro!: list_all_swap split: if_splits)

lemma remove_segment_mutation:
  assumes "remove_segment st = Done st1" and "st1 \<noteq> st"
  shows "pushed st st1" and "well_kept st \<Longrightarrow> well_kept st1"
  using assms
  by (auto simp: remove_segment_def Let_def then_display_Done_iff pushed_def del_item_def
      well_kept_all list_all_del split: if_splits)

lemma clear_timeline_mutation:
  assumes "clear_timeline b st = Done st1" and "st1 \<noteq> st"
  shows "pushed st st1" and "well_kept st \<Longrightarrow> well_kept st1"
  using assms
  by (auto simp: clear_timeline_def Let_def then_display_Done_iff pushed_def
      well_kept_all split: if_splits)

lemma apply_effects_mutation:
  assumes "apply_effects w st = Done st1"
  shows "pushed st st1" and "well_kept st \<Longrightarrow> well_kept st1"
proof -
  let ?i = "nat (current_segment_index st)"
  from assms have st1: "st1 = (save_state st)\<lparr>video_segments :=
      (video_segments st)[?i := apply_effects_to w (video_segments st ! ?i)]\<rparr>"
    and nz: "nonzero_speeds st1"
    by (auto simp: apply_effects_def Let_def then_display_Done_iff split: if_splits)
  show "pushed st st1" by (simp add: st1 pushed_def)
  assume "well_kept st"
  then have "list_all stable_segment (video_segments st1)"
    by (simp add: st1 well_kept_def list_all_update stable_apply_effects_to)
  with nz show "well_kept st1" by (simp add: well_kept_def)
qed

lemma apply_volume_mutation:
  assumes "apply_volume v st = Done st1"
  shows "pushed st st1" and "well_kept st \<Longrightarrow> well_kept st1"
proof -
  let ?i = "nat (current_segment_index st)"
  from assms have st1: "st1 = (save_state st)\<lparr>video_segments :=
      (video_segments st)[?i := (video_segments st ! ?i)\<lparr>volume := real_of_int v / 100\<rparr>]\<rparr>"
    and i: "?i < length (video_segments st)"
    by (auto simp: apply_volume_def Let_def split: if_splits)
  show "pushed st st1" by (simp add: st1 pushed_def)
  assume wk: "well_kept st"
  then have "stable_segment (video_segments st ! ?i) \<and> speed (video_segments st ! ?i) \<noteq> 0"
    using i by (simp add: well_kept_all list_all_length)
  then have "stable_segment ((video_segments st ! ?i)\<lparr>volume := real_of_int v / 100\<rparr>)
       \<and> speed ((video_segments st ! ?i)\<lparr>volume := real_of_int v / 100\<rparr>) \<noteq> 0"
    by (simp add: stable_segment_def)
  with wk show "well_kept st1"
    by (simp add: st1 well_kept_all list_all_update)
qed

lemma add_text_overlay_mutation:
  assumes "add_text_overlay w st = Done st1"
  shows "pushed st st1" and "well_kept st \<Longrightarrow> well_kept st1"
  using assms
  by (auto simp: add_text_overlay_def Let_def pushed_def well_kept_all
      split: option.splits if_splits)

lemma remove_text_overlay_mutation:
  assumes "remove_text_overlay r st = Done st1" and "st1 \<noteq> st"
  shows "pushed st st1" and "well_kept st \<Longrightarrow> well_kept st1"
  using assms
  by (auto simp: remove_text_overlay_def Let_def pushed_def del_item_def well_kept_all
      split: if_splits)

lemma mutation_pushes_and_keeps:
  assumes "mutating c" and "run_command c st = Done st1" and "st1 \<noteq> st"
  shows "pushed st st1" and "well_kept st \<Longrightarrow> well_kept st1"
proof -
  have "pushed st st1 \<and> (well_kept st \<longrightarrow> well_kept st1)"
  proof (cases c)
    case AddSegment with assms show ?thesis using add_segment_mutation by simp
  next
    case MoveUp with assms show ?thesis using move_up_mutation by simp
  next
    case MoveDown with assms show ?thesis using move_down_mutation by simp
  next
    case RemoveSegment with assms show ?thesis using remove_segment_mutation by simp
  next
    case (ClearTimeline b) with assms show ?thesis using clear_timeline_mutation by simp
  next
    case (ApplyEffects w) with assms show ?thesis using apply_effects_mutation by simp
  next
    case (ApplyVolume v) with assms show ?thesis using apply_volume_mutation by simp
  next
    case (AddTextOverlay w) with assms show ?thesis using add_text_overlay_mutation by simp
  next
    case (RemoveTextOverlay r) with assms show ?thesis using remove_text_overlay_mutation by simp
  qed (use assms(1) in \<open>simp_all add: mutating_def\<close>)
  then show "pushed st st1" and "well_kept st \<Longrightarrow> well_kept st1" by simp_all
qed

lemma reloaded_stable:
  "list_all (\<lambda>ov. json_stable (position ov)) ovs \<Longrightarrow> map reloaded ovs = ovs"
  by (induction ovs) (simp_all add: reloaded_def json_stable_def)

text \<open>
  Apart from overlay positions the claim holds. After a successful mutation of a state
  whose segments have JSON-stable effects and speeds other than 0, undo succeeds and
  leaves the segments of before the mutation and its overlays as they come back from
  JSON; redo then succeeds and leaves the segments of after the mutation and its
  overlays as they come back from JSON. These are the very overlays when every position
  is JSON-stable, as the string \<open>'center'\<close> is.
\<close>

theorem undo_redo_after_mutation:
  assumes "mutating c" and "run_command c st = Done st1" and "st1 \<noteq> st"
    and "well_kept st"
  shows "\<exists>st2 st3.
           undo st1 = Done st2
           \<and> video_segments st2 = video_segments st
           \<and> editor.text_overlays st2 = map reloaded (editor.text_overlays st)
           \<and> redo st2 = Done st3
           \<and> video_segments st3 = video_segments st1
           \<and> editor.text_overlays st3 = map reloaded (editor.text_overlays st1)"
proof -
  from mutation_pushes_and_keeps(1) [OF assms(1-3)]
  have push: "undo_stack st1 = undo_stack (save_state st)" and r1: "redo_stack st1 = []"
    by (simp_all add: pushed_def)
  have wk1: "well_kept st1" by (rule mutation_pushes_and_keeps(2) [OF assms])
  let ?st2 = "st1\<lparr>redo_stack := redo_stack st1 @ [dumps (state_dict st1)],
                undo_stack := butlast (undo_stack st1),
                video_segments := video_segments st,
                editor.text_overlays := map reloaded (editor.text_overlays st)\<rparr>"
  have "nonzero_speeds ?st2" using assms(4) by (simp add: nonzero_speeds_def well_kept_def)
  moreover have "list_all stable_segment (video_segments st)"
    using assms(4) by (simp add: well_kept_def)
  ultimately have u: "undo st1 = Done ?st2"
    using undo_after_push [OF push] by (simp add: then_display_Done_iff)
  let ?st3 = "?st2\<lparr>undo_stack := undo_stack ?st2 @ [dumps (state_dict ?st2)],
                redo_stack := [],
                video_segments := video_segments st1,
                editor.text_overlays := map reloaded (editor.text_overlays st1)\<rparr>"
  have "redo ?st2 = then_display ?st3"
    using r1 wk1 by (simp add: redo_def Let_def restore_snapshot well_kept_def)
  moreover have "nonzero_speeds ?st3" using wk1 by (simp add: nonzero_speeds_def well_kept_def)
  ultimately have "redo ?st2 = Done ?st3" by (simp add: then_display_Done_iff)
  with u show ?thesis by simp
qed


lemma stable_center: "json_stable (PStr ''center'')"
  by (simp add: json_stable_def)

text \<open>
  Undo and redo leave the selection index as it is, whatever the snapshot; the segment
  list they restore may be shorter.
\<close>

lemma undo_keeps_selection:
  "current_segment_index (outcome_state st (undo st)) = current_segment_index st"
  using same_attrs_fields(3) [OF restore_state_attrs]
  by (simp add: undo_def Let_def)

lemma redo_keeps_selection:
  "current_segment_index (outcome_state st (redo st)) = current_segment_index st"
  using same_attrs_fields(3) [OF restore_state_attrs]
  by (simp add: redo_def Let_def)


text \<open>
  C7 (evaluation at the failing input). A clip is open; two segments are added, the
  second is selected (index 1) and undo is called. Undo succeeds and leaves one segment,
  but the selection index is still 1: it is neither -1 nor a valid index.
  \<open>move_segment_up\<close>, whose guard only tests the index against 0, then raises
  \<open>IndexError\<close>.
\<close>

theorem undo_keeps_stale_selection:
  "run_command Undo (run_commands [AddSegment, AddSegment, ItemClicked 1] opened)
     = Done (run_commands [AddSegment, AddSegment, ItemClicked 1, Undo] opened)
   \<and> video_segments (run_commands [AddSegment, AddSegment, ItemClicked 1, Undo] opened)
       = [one_segment]
   \<and> current_segment_index (run_commands [AddSegment, AddSegment, ItemClicked 1, Undo] opened)
       = 1
   \<and> run_command MoveUp (run_commands [AddSegment, AddSegment, ItemClicked 1, Undo] opened)
       = Raised IndexError
           (save_state (run_commands [AddSegment, AddSegment, ItemClicked 1, Undo] opened))"
  by (simp add: eval_defs opened_def init_editor_def one_segment_def add_segment_to_timeline_def
      on_timeline_item_clicked_def move_segment_up_def swap_items_def)

section \<open>Declared total duration\<close>

text \<open>
  The states built by the editor keep \<open>duration = end_time - start_time\<close> and a speed
  that is not 0 in every segment, on the timeline and in every snapshot on the stacks.
\<close>

lemma consistent_stable: "list_all consistent_segment segs \<Longrightarrow> list_all stable_segment segs"
  by (simp add: list_all_iff consistent_segment_def)

lemma save_state_snapshots:
  assumes "edit_invariant st"
  shows "snapshots_consistent (save_state st)"
proof -
  have "set (undo_stack (save_state st)) \<subseteq> insert (dumps (state_dict st)) (set (undo_stack st))"
    by (cases "undo_stack st") (auto simp: save_state_def Let_def)
  with assms show ?thesis
    unfolding edit_invariant_def snapshots_consistent_def by fastforce
qed

lemma edit_invariantI:
  assumes "history_step st st'"
    and "edit_invariant st" and "list_all consistent_segment (video_segments st')"
  shows "edit_invariant st'"
proof -
  from assms(1) have "snapshots_consistent st'"
    unfolding history_step_def
  proof
    assume "same_history st' (save_state st)"
    with save_state_snapshots [OF assms(2)] show ?thesis
      by (simp add: snapshots_consistent_def same_history_def)
  next
    assume "same_history st' st"
    with assms(2) show ?thesis
      by (simp add: snapshots_consistent_def same_history_def edit_invariant_def)
  qed
  with assms(3) show ?thesis by (simp add: edit_invariant_def)
qed

lemma consistent_apply_effects_to:
  "consistent_segment s \<Longrightarrow> speed_spin w \<noteq> 0 \<Longrightarrow>
   consistent_segment (apply_effects_to w s)"
  by (simp add: consistent_segment_def stable_apply_effects_to)
     (simp add: apply_effects_to_def Let_def)

lemma consistent_volume:
  "consistent_segment s \<Longrightarrow> consistent_segment (s\<lparr>volume := v\<rparr>)"
  by (simp add: consistent_segment_def stable_segment_def)

lemma add_segment_consistent:
  "list_all consistent_segment (video_segments st) \<Longrightarrow>
   list_all consistent_segment (video_segments (outcome_state st (add_segment_to_timeline st)))"
  by (auto simp: add_segment_to_timeline_def Let_def consistent_segment_def stable_segment_def
      split: option.splits)

lemma move_up_consistent:
  "list_all consistent_segment (video_segments st) \<Longrightarrow>
   list_all consistent_segment (video_segments (outcome_state st (move_segment_up st)))"
  by (auto simp: move_segment_up_def Let_def swap_items_def intro!: list_all_swap)

lemma move_down_consistent:
  "list_all consistent_segment (video_segments st) \<Longrightarrow>
   list_all consistent_segment (video_segments (outcome_state st (move_segment_down st)))"
  by (auto simp: move_segment_down_def Let_def swap_items_def intro!: list_all_swap)

lemma remove_segment_consistent:
  "list_all consistent_segment (video_segments st) \<Longrightarrow>
   list_all consistent_segment (video_segments (outcome_state st (remove_segment st)))"
  by (auto simp: remove_segment_def Let_def del_item_def list_all_del)

lemma clear_timeline_consistent:
  "list_all consistent_segment (video_segments st) \<Longrightarrow>
   list_all consistent_segment (video_segments (outcome_state st (clear_timeline b st)))"
  by (auto simp: clear_timeline_def Let_def)

lemma apply_effects_consistent:
  assumes "list_all consistent_segment (video_segments st)" and w: "speed_spin w \<noteq> 0"
  shows "list_all consistent_segment (video_segments (outcome_state st (apply_effects w st)))"
proof (cases "current_segment_index st < 0
    \<or> current_segment_index st \<ge> int (length (video_segments st))")
  case True
  with assms(1) show ?thesis by (simp add: apply_effects_def)
next
  case False
  let ?i = "nat (current_segment_index st)"
  from False have "?i < length (video_segments st)" by linarith
  with assms have "consistent_segment (video_segments st ! ?i)" by (simp add: list_all_length)
  then have "list_all consistent_segment
      ((video_segments st)[?i := apply_effects_to w (video_segments st ! ?i)])"
    using assms(1) w by (intro list_all_update consistent_apply_effects_to)
  with False show ?thesis by (simp add: apply_effects_def Let_def)
qed

lemma apply_volume_consistent:
  assumes "list_all consistent_segment (video_segments st)"
  shows "list_all consistent_segment (video_segments (outcome_state st (apply_volume v st)))"
proof (cases "current_segment_index st < 0
    \<or> current_segment_index st \<ge> int (length (video_segments st))")
  case True
  with assms show ?thesis by (simp add: apply_volume_def)
next
  case False
  let ?i = "nat (current_segment_index st)"
  from False have "?i < length (video_segments st)" by linarith
  with assms have "consistent_segment (video_segments st ! ?i)" by (simp add: list_all_length)
  then have "list_all consistent_segment
      ((video_segments st)[?i := (video_segments st ! ?i)\<lparr>volume := real_of_int v / 100\<rparr>])"
    using assms by (intro list_all_update consistent_volume)
  with False show ?thesis by (simp add: apply_volume_def Let_def)
qed

lemma other_commands_segments:
  "video_segments (outcome_state st (add_text_overlay tw st)) = video_segments st"
  "video_segments (outcome_state st (remove_text_overlay r st)) = video_segments st"
  "video_segments (outcome_state st (open_video p d st)) = video_segments st"
  "video_segments (outcome_state st (on_duration_changed dur st)) = video_segments st"
  "video_segments (outcome_state st (set_in_point pos st)) = video_segments st"
  "video_segments (outcome_state st (set_out_point pos st)) = video_segments st"
  "video_segments (outcome_state st (on_timeline_item_clicked row st)) = video_segments st"
  "video_segments (outcome_state st (choose_text_color c st)) = video_segments st"
  by (auto simp: add_text_overlay_def remove_text_overlay_def del_item_def open_video_def
      on_duration_changed_def set_in_point_def set_out_point_def on_timeline_item_clicked_def
      choose_text_color_def Let_def split: option.splits)


lemma undo_edit_invariant:
  assumes "edit_invariant st"
  shows "edit_invariant (outcome_state st (undo st))"
proof (cases "undo_stack st = []")
  case True
  with assms show ?thesis by (simp add: undo_def)
next
  case False
  let ?j = "last (undo_stack st)"
  let ?st2 = "st\<lparr>redo_stack := redo_stack st @ [dumps (state_dict st)],
                  undo_stack := butlast (undo_stack st)\<rparr>"
  from False have "?j \<in> set (undo_stack st)" by simp
  with assms obtain s where j: "?j = dumps (state_dict s)"
    and s: "list_all consistent_segment (video_segments s)"
    unfolding edit_invariant_def snapshots_consistent_def by blast
  have "undo st = restore_state ?j ?st2" using False by (simp add: undo_def Let_def)
  then have u: "outcome_state st (undo st)
      = ?st2\<lparr>video_segments := video_segments s,
             editor.text_overlays := map reloaded (editor.text_overlays s)\<rparr>"
    by (simp add: j restore_snapshot [OF consistent_stable [OF s]])
  have "set (butlast (undo_stack st)) \<subseteq> set (undo_stack st)"
    by (auto dest: in_set_butlastD)
  with assms have "snapshots_consistent (outcome_state st (undo st))"
    unfolding u edit_invariant_def snapshots_consistent_def by fastforce
  with s show ?thesis by (simp add: edit_invariant_def u)
qed

lemma redo_edit_invariant:
  assumes "edit_invariant st"
  shows "edit_invariant (outcome_state st (redo st))"
proof (cases "redo_stack st = []")
  case True
  with assms show ?thesis by (simp add: redo_def)
next
  case False
  let ?j = "last (redo_stack st)"
  let ?st2 = "st\<lparr>undo_stack := undo_stack st @ [dumps (state_dict st)],
                  redo_stack := butlast (redo_stack st)\<rparr>"
  from False have "?j \<in> set (redo_stack st)" by simp
  with assms obtain s where j: "?j = dumps (state_dict s)"
    and s: "list_all consistent_segment (video_segments s)"
    unfolding edit_invariant_def snapshots_consistent_def by blast
  have "redo st = restore_state ?j ?st2" using False by (simp add: redo_def Let_def)
  then have u: "outcome_state st (redo st)
      = ?st2\<lparr>video_segments := video_segments s,
             editor.text_overlays := map reloaded (editor.text_overlays s)\<rparr>"
    by (simp add: j restore_snapshot [OF consistent_stable [OF s]])
  have "set (butlast (redo_stack st)) \<subseteq> set (redo_stack st)"
    by (auto dest: in_set_butlastD)
  with assms have "snapshots_consistent (outcome_state st (redo st))"
    unfolding u edit_invariant_def snapshots_consistent_def by fastforce
  with s show ?thesis by (simp add: edit_invariant_def u)
qed

lemma same_history_step: "same_history st' st \<Longrightarrow> history_step st st'"
  by (simp add: history_step_def)

lemma edit_command_invariant:
  assumes "editing_command c" and "edit_invariant st"
  shows "edit_invariant (outcome_state st (run_command c st))"
proof -
  note seg = assms(2) [unfolded edit_invariant_def, THEN conjunct1]
  show ?thesis
  proof (cases c)
    case Undo then show ?thesis using assms(2) by (simp add: undo_edit_invariant)
  next
    case Redo then show ?thesis using assms(2) by (simp add: redo_edit_invariant)
  next
    case (LoadProject doc) with assms(1) show ?thesis by (simp add: editing_command_def)
  next
    case AddSegment
    then show ?thesis
      using edit_invariantI [OF add_segment_history assms(2) add_segment_consistent [OF seg]]
      by simp
  next
    case MoveUp
    then show ?thesis
      using edit_invariantI [OF move_up_history assms(2) move_up_consistent [OF seg]] by simp
  next
    case MoveDown
    then show ?thesis
      using edit_invariantI [OF move_down_history assms(2) move_down_consistent [OF seg]]
      by simp
  next
    case RemoveSegment
    then show ?thesis
      using edit_invariantI [OF remove_segment_history assms(2)
          remove_segment_consistent [OF seg]] by simp
  next
    case (ClearTimeline b)
    then show ?thesis
      using edit_invariantI [OF clear_timeline_history assms(2)
          clear_timeline_consistent [OF seg]] by simp
  next
    case (ApplyEffects w)
    with assms(1) have "speed_spin w \<noteq> 0"
      by (simp add: editing_command_def speed_in_range_def)
    with ApplyEffects show ?thesis
      using edit_invariantI [OF apply_effects_history assms(2)
          apply_effects_consistent [OF seg]] by simp
  next
    case (ApplyVolume v)
    then show ?thesis
      using edit_invariantI [OF apply_volume_history assms(2)
          apply_volume_consistent [OF seg]] by simp
  next
    case (AddTextOverlay w)
    then show ?thesis
      using edit_invariantI [OF add_text_overlay_history assms(2)] seg
      by (simp add: other_commands_segments)
  next
    case (RemoveTextOverlay r)
    then show ?thesis
      using edit_invariantI [OF remove_text_overlay_history assms(2)] seg
      by (simp add: other_commands_segments)
  next
    case (OpenVideo p d)
    then show ?thesis
      using edit_invariantI [OF same_history_step [OF range_commands_history(1)] assms(2)] seg
      by (simp add: other_commands_segments)
  next
    case (DurationChanged dur)
    then show ?thesis
      using edit_invariantI [OF same_history_step [OF range_commands_history(2)] assms(2)] seg
      by (simp add: other_commands_segments)
  next
    case (SetInPoint pos)
    then show ?thesis
      using edit_invariantI [OF same_history_step [OF range_commands_history(3)] assms(2)] seg
      by (simp add: other_commands_segments)
  next
    case (SetOutPoint pos)
    then show ?thesis
      using edit_invariantI [OF same_history_step [OF range_commands_history(4)] assms(2)] seg
      by (simp add: other_commands_segments)
  next
    case (ItemClicked row)
    then show ?thesis
      using edit_invariantI [OF same_history_step [OF range_commands_history(5)] assms(2)] seg
      by (simp add: other_commands_segments)
  next
    case (ChooseTextColor col)
    then show ?thesis
      using edit_invariantI [OF same_history_step [OF range_commands_history(6)] assms(2)] seg
      by (simp add: other_commands_segments)
  qed
qed

lemma load_saved_invariant:
  assumes "edit_invariant st" and "edit_invariant st'"
  shows "edit_invariant (outcome_state st (load_project (save_project st') st))"
proof -
  from assms(2) have s: "list_all consistent_segment (video_segments st')"
    by (simp add: edit_invariant_def)
  have u: "outcome_state st (load_project (save_project st') st)
      = st\<lparr>video_segments := video_segments st',
           editor.text_overlays := map reloaded (editor.text_overlays st')\<rparr>"
    by (simp add: load_saved_project [OF consistent_stable [OF s]])
  from assms(1) s show ?thesis
    unfolding u by (simp add: edit_invariant_def snapshots_consistent_def)
qed

lemma edited_invariant: "edited st \<Longrightarrow> edit_invariant st"
proof (induction rule: edited.induct)
  case edited_init
  show ?case by (simp add: edit_invariant_def snapshots_consistent_def init_editor_def)
next
  case (edited_step st c)
  then show ?case by (simp add: edit_command_invariant)
next
  case (edited_load st st')
  then show ?case by (simp add: load_saved_invariant)
qed

lemma edited_segments: "edited st \<Longrightarrow> list_all consistent_segment (video_segments st)"
  using edited_invariant [of st] by (simp add: edit_invariant_def)

lemma edited_run_commands:
  "edited st \<Longrightarrow> list_all editing_command cs \<Longrightarrow> edited (run_commands cs st)"
  by (induction cs arbitrary: st) (simp_all add: edited_step)

lemma scenario_timeline:
  "video_segments (run_commands scenario_commands init_editor) = two_segments"
  by (simp add: scenario_commands_def init_editor_def open_video_def
      add_segment_to_timeline_def on_timeline_item_clicked_def apply_effects_def
      apply_effects_to_def append_if_def double_speed_def two_segments_def one_segment_def
      Let_def)

lemma scenario_edited: "edited (run_commands scenario_commands init_editor)"
  by (rule edited_run_commands [OF edited_init])
     (simp add: scenario_commands_def editing_command_def speed_in_range_def double_speed_def)

text \<open>
  C9. The total duration that \<open>update_timeline_display\<close> puts into the status bar is the
  sum, in timeline order, of the stored \<open>duration\<close> field over \<open>speed\<close>, for every
  timeline without a segment of speed 0; with such a segment the method raises
  \<open>ZeroDivisionError\<close>. In every state built by the editor's own commands, undo and redo
  included, and by opening project files the editor has saved, the stored field is
  \<open>end_time - start_time\<close> and no speed is 0, so there the total is the sum of
  \<open>(end_time - start_time) / speed\<close>.
\<close>

theorem declared_total_duration:
  "(edited st \<longrightarrow>
      update_timeline_display st =
        Inr (\<Sum>s\<leftarrow>video_segments st. (end_time s - VideoSegment.start_time s) / speed s))
 \<and> (nonzero_speeds st \<longrightarrow>
      update_timeline_display st =
        Inr (\<Sum>s\<leftarrow>video_segments st. VideoSegment.duration s / speed s))
 \<and> (\<not> nonzero_speeds st \<longrightarrow> update_timeline_display st = Inl ZeroDivisionError)"
proof (intro conjI impI)
  assume "edited st"
  then have c: "\<forall>s \<in> set (video_segments st). consistent_segment s"
    using edited_segments [of st] by (simp add: list_all_iff)
  then have nz: "\<forall>s \<in> set (video_segments st). speed s \<noteq> 0"
    by (simp add: consistent_segment_def)
  have "(\<Sum>s\<leftarrow>video_segments st. VideoSegment.duration s / speed s)
      = (\<Sum>s\<leftarrow>video_segments st. (end_time s - VideoSegment.start_time s) / speed s)"
    using c by (intro arg_cong [where f = sum_list] map_cong) (auto simp: consistent_segment_def)
  with nz show "update_timeline_display st =
      Inr (\<Sum>s\<leftarrow>video_segments st. (end_time s - VideoSegment.start_time s) / speed s)"
    by (simp add: update_timeline_display_def total_duration_loop_sum)
next
  assume "nonzero_speeds st"
  then show "update_timeline_display st =
      Inr (\<Sum>s\<leftarrow>video_segments st. VideoSegment.duration s / speed s)"
    by (simp add: nonzero_speeds_def list_all_iff update_timeline_display_def
        total_duration_loop_sum)
next
  assume "\<not> nonzero_speeds st"
  then have "\<exists>s \<in> set (video_segments st). speed s = 0"
    by (auto simp: nonzero_speeds_def list_all_iff)
  then show "update_timeline_display st = Inl ZeroDivisionError"
    by (simp add: update_timeline_display_def total_duration_loop_zero)
qed

text \<open>
  The scenario of C9 built with the editor's commands: a.mp4 from 0 to 5 at speed 1 and
  b.mp4 from 0 to 3 at speed 2 give 6.5; the same timeline given directly; and a segment
  of speed 0.
\<close>

theorem declared_total_duration_witness:
  "update_timeline_display (run_commands scenario_commands init_editor) = Inr 6.5
 \<and> video_segments (run_commands scenario_commands init_editor) = two_segments
 \<and> update_timeline_display (init_editor\<lparr>video_segments := two_segments\<rparr>) = Inr 6.5
 \<and> update_timeline_display (init_editor\<lparr>video_segments := [stopped_segment]\<rparr>)
     = Inl ZeroDivisionError"
proof (intro conjI)
  from declared_total_duration [of "run_commands scenario_commands init_editor"]
    scenario_edited
  have "update_timeline_display (run_commands scenario_commands init_editor) =
      Inr (\<Sum>s\<leftarrow>video_segments (run_commands scenario_commands init_editor).
             (end_time s - VideoSegment.start_time s) / speed s)"
    by blast
  then show "update_timeline_display (run_commands scenario_commands init_editor) = Inr 6.5"
    by (simp add: scenario_timeline two_segments_def one_segment_def)
  show "video_segments (run_commands scenario_commands init_editor) = two_segments"
    by (rule scenario_timeline)
  have "nonzero_speeds (init_editor\<lparr>video_segments := two_segments\<rparr>)"
    by (simp add: nonzero_speeds_def two_segments_def one_segment_def)
  with declared_total_duration [of "init_editor\<lparr>video_segments := two_segments\<rparr>"]
  show "update_timeline_display (init_editor\<lparr>video_segments := two_segments\<rparr>) = Inr 6.5"
    by (simp add: two_segments_def one_segment_def)
  have "\<not> nonzero_speeds (init_editor\<lparr>video_segments := [stopped_segment]\<rparr>)"
    by (simp add: nonzero_speeds_def stopped_segment_def)
  with declared_total_duration [of "init_editor\<lparr>video_segments := [stopped_segment]\<rparr>"]
  show "update_timeline_display (init_editor\<lparr>video_segments := [stopped_segment]\<rparr>)
      = Inl ZeroDivisionError"
    by blast
qed

text \<open>
  Against C9 as stated: a project file may store a \<open>duration\<close> that is not
  \<open>end_time - start_time\<close>, and \<open>load_project\<close> keeps it. For the segment from 0 to 5
  at speed 1 stored with duration 10, the status bar reports 10, where the sum of
  \<open>(end_time - start_time) / speed\<close> is 5.
\<close>

theorem stored_duration_reported_counterexample:
  "load_project long_project init_editor = Done (init_editor\<lparr>video_segments := [long_segment]\<rparr>)
 \<and> update_timeline_display (init_editor\<lparr>video_segments := [long_segment]\<rparr>) = Inr 10
 \<and> (end_time long_segment - VideoSegment.start_time long_segment) / speed long_segment = 5"
  by (simp add: eval_defs long_project_def long_segment_def one_segment_def init_editor_def
      update_timeline_display_def)

section \<open>Effects in the export pipeline\<close>

lemma apply_effect_skipped: "is_skipped e \<Longrightarrow> apply_effect eng e clip = Inr clip"
  by (auto simp: is_skipped_def apply_effect_def)

lemma then_try_simps [simp]:
  "then_try (Inr x) f = f x" "then_try (Inl m) f = Inl m"
  by (simp_all add: then_try_def)

lemma apply_effect_loop_filter:
  "apply_effect_loop eng effs clip = apply_effect_loop eng (filter (\<lambda>e. \<not> is_skipped e) effs) clip"
proof (induction effs arbitrary: clip)
  case Nil show ?case by simp
next
  case (Cons e effs)
  show ?case
  proof (cases "is_skipped e")
    case True then show ?thesis using Cons.IH by (simp add: apply_effect_skipped)
  next
    case False then show ?thesis using Cons.IH by (simp add: then_try_def split: sum.splits)
  qed
qed

lemma process_segment_without_skipped:
  "process_segment eng (without_skipped segment) = process_segment eng segment"
  by (simp add: process_segment_def without_skipped_def apply_effect_loop_filter [symmetric]
      cong: if_cong)

lemma segments_loop_without_skipped:
  "segments_loop eng (map without_skipped segs) clips = segments_loop eng segs clips"
  by (induction segs arbitrary: clips) (simp_all add: process_segment_without_skipped)

lemma contrast_recorded:
  "contrast_slider w \<noteq> 100 \<Longrightarrow>
   [(''type'', PStr ''contrast''), (''value'', PFloat (real_of_int (contrast_slider w) / 100))]
     \<in> set (effects (apply_effects_to w segment))"
  by (simp add: apply_effects_to_effects widget_effects_def)

text \<open>
  C10. An effect whose type is contrast or blur leaves the clip as it is, whatever the
  engine; so the effect loop, the processing of a segment and the whole segment loop
  give the same result with these entries removed. Yet \<open>apply_effects\<close> records a
  contrast entry on the segment whenever the contrast slider is not at 100.
\<close>

theorem contrast_and_blur_skipped:
  "(is_skipped effect \<longrightarrow> apply_effect eng effect clip = Inr clip)
   \<and> apply_effect_loop eng effs clip
       = apply_effect_loop eng (filter (\<lambda>e. \<not> is_skipped e) effs) clip
   \<and> process_segment eng segment = process_segment eng (without_skipped segment)
   \<and> segments_loop eng segs clips = segments_loop eng (map without_skipped segs) clips
   \<and> (contrast_slider w \<noteq> 100 \<longrightarrow>
        is_skipped [(''type'', PStr ''contrast''),
                    (''value'', PFloat (real_of_int (contrast_slider w) / 100))]
        \<and> [(''type'', PStr ''contrast''),
            (''value'', PFloat (real_of_int (contrast_slider w) / 100))]
          \<in> set (effects (apply_effects_to w segment)))"
  using apply_effect_loop_filter [of eng effs clip]
  by (simp add: apply_effect_skipped process_segment_without_skipped
      segments_loop_without_skipped contrast_recorded) (simp add: is_skipped_def)

theorem contrast_and_blur_skipped_witness:
  "effects (apply_effects_to contrast_widgets one_segment)
     = [[(''type'', PStr ''brightness''), (''value'', PFloat 1.2)],
        [(''type'', PStr ''contrast''), (''value'', PFloat 1.5)]]
   \<and> process_segment trace_engine (apply_effects_to contrast_widgets one_segment)
       = Inr [''a.mp4'', ''colorx'']
   \<and> process_segment trace_engine
         (without_skipped (apply_effects_to contrast_widgets one_segment))
       = Inr [''a.mp4'', ''colorx'']"
  using contrast_and_blur_skipped
      [where effect = "[(''type'', PStr ''contrast''), (''value'', PFloat 1.5)]"
       and eng = trace_engine and clip = "[''a.mp4'', ''colorx'']"
       and segment = "apply_effects_to contrast_widgets one_segment"
       and w = contrast_widgets]
  by (simp add: apply_effects_to_def contrast_widgets_def one_segment_def append_if_def Let_def
      process_segment_def trace_engine_def apply_effect_def dict_get_def without_skipped_def
      is_skipped_def)

section \<open>What a running export job reads\<close>

lemma window_write_window [simp]: "window (write_window ed ap) = ed"
  by (simp add: window_def write_window_def)

lemma write_window_refs [simp]:
  "self_video_segments (write_window ed ap) = self_video_segments ap"
  "self_text_overlays (write_window ed ap) = self_text_overlays ap"
  "export_thread (write_window ed ap) = export_thread ap"
  by (simp_all add: write_window_def)

lemma app_command_refs [simp]:
  "self_video_segments (app_command c ap) = self_video_segments ap"
  "self_text_overlays (app_command c ap) = self_text_overlays ap"
  "export_thread (app_command c ap) = export_thread ap"
  by (simp_all add: app_command_def)

lemma window_app_command:
  "window (app_command c ap) = outcome_state (window ap) (run_command c (window ap))"
  by (simp add: app_command_def)

lemma fold_app_command_refs [simp]:
  "self_video_segments (fold app_command cs ap) = self_video_segments ap"
  "self_text_overlays (fold app_command cs ap) = self_text_overlays ap"
  "export_thread (fold app_command cs ap) = export_thread ap"
  by (induction cs arbitrary: ap) simp_all

lemma job_step_Ended [simp]:
  "job_step eng thr ap (Ended written ok msg pr) = Ended written ok msg pr"
  by (simp add: job_step_def job_step_on_def)

lemma two_clip_window:
  "window two_clip_app = init_editor\<lparr>current_video_path := Some ''b.mp4'', clip_duration := 3, out_time := 3,
     video_segments := [one_segment, one_segment\<lparr>path := ''b.mp4'', end_time := 3, VideoSegment.duration := 3\<rparr>],
     undo_stack := [empty_snapshot, dumps (state_dict (init_editor\<lparr>video_segments := [one_segment]\<rparr>))]\<rparr>"
  by (simp add: two_clip_app_def window_app_command open_video_def add_segment_to_timeline_def
      Let_def then_display_def update_timeline_display_def save_state_def snapshot_of_empty)
     (simp add: window_def init_app_def init_editor_def one_segment_def state_dict_def empty_snapshot_def)


lemma two_clip_refs:
  "self_video_segments two_clip_app = 0" "self_text_overlays two_clip_app = 1"
  "export_thread two_clip_app = None"
  by (simp_all add: two_clip_app_def init_app_def)

lemma two_clip_lists:
  "segment_lists two_clip_app 0
     = [one_segment, one_segment\<lparr>path := ''b.mp4'', end_time := 3, VideoSegment.duration := 3\<rparr>]"
  "overlay_lists two_clip_app (Suc 0) = []"
proof -
  have "video_segments (window two_clip_app)
     = [one_segment, one_segment\<lparr>path := ''b.mp4'', end_time := 3, VideoSegment.duration := 3\<rparr>]"
    by (simp add: two_clip_window)
  then show "segment_lists two_clip_app 0
     = [one_segment, one_segment\<lparr>path := ''b.mp4'', end_time := 3, VideoSegment.duration := 3\<rparr>]"
    by (simp add: window_def two_clip_refs)
  have "editor.text_overlays (window two_clip_app) = []"
    by (simp add: two_clip_window init_editor_def)
  then show "overlay_lists two_clip_app (Suc 0) = []"
    by (simp add: window_def two_clip_refs)
qed

lemma cleared_lists:
  "segment_lists (app_command (ClearTimeline True) exporting_app) 0 = []"
  "overlay_lists (app_command (ClearTimeline True) exporting_app) (Suc 0) = []"
  by (simp_all add: app_command_def write_window_def exporting_app_def two_clip_refs
      two_clip_lists clear_timeline_def Let_def window_def)

lemma export_started:
  "export_video ''out.mp4'' mp4_settings two_clip_app = Inr exporting_app"
  by (simp add: export_video_def two_clip_window exporting_app_def export_job_thread_def
      two_clip_refs)

lemma export_started_again:
  "export_video ''again.mp4'' mp4_settings exporting_app = Inr exporting_again"
  using two_clip_window
  by (simp add: export_video_def exporting_again_def exporting_app_def export_job_thread_def
      two_clip_refs window_def)

text \<open>
  C4 (as the code has it). Whenever an export starts, a first one or one started while
  an earlier thread object is still referenced, the thread is given the editor's two list
  objects themselves; no copy is taken, and the start changes nothing of the timeline.
  After any sequence of commands on the live timeline (undo and redo among them) the
  lists the job reads are the live segment list and the live overlay list as they are at
  that moment, and every step of the job is the step on these live lists.
\<close>

theorem export_job_reads_live_lists:
  assumes "export_video out_path sett ap = Inr ap0"
    and "out_path \<noteq> []"
    and "export_thread ap0 = Some thr"
  shows "window ap0 = window ap
       \<and> segment_lists (fold app_command cs ap0) (segments thr)
           = video_segments (window (fold app_command cs ap0))
       \<and> overlay_lists (fold app_command cs ap0) (ExportThread.text_overlays thr)
           = editor.text_overlays (window (fold app_command cs ap0))
       \<and> job_step eng thr (fold app_command cs ap0) j
           = job_step_on eng thr (video_segments (window (fold app_command cs ap0)))
               (editor.text_overlays (window (fold app_command cs ap0))) j"
proof -
  from assms have ap0: "ap0 = ap\<lparr>export_thread := Some thr\<rparr>"
    and thr: "segments thr = self_video_segments ap"
             "ExportThread.text_overlays thr = self_text_overlays ap"
    by (auto simp: export_video_def split: if_splits)
  have "window ap0 = window ap" by (simp add: ap0 window_def)
  moreover have "self_video_segments ap0 = self_video_segments ap"
    "self_text_overlays ap0 = self_text_overlays ap" by (simp_all add: ap0)
  ultimately show ?thesis
    by (simp add: thr window_def job_step_def)
qed

text \<open>
  A first export with the timeline cleared while the job is about to compute its
  progress value, and a second export started while the first thread is still there.
\<close>

theorem export_job_reads_live_lists_witness:
  "export_video ''out.mp4'' mp4_settings two_clip_app = Inr exporting_app
   \<and> export_thread exporting_app = Some export_job_thread
   \<and> segment_lists (fold app_command [ClearTimeline True] exporting_app)
        (segments export_job_thread) = []
   \<and> job_step trace_engine export_job_thread
        (fold app_command [ClearTimeline True] exporting_app) (AtProgress 0 [[''a.mp4'']] [])
       = Ended None False ''division by zero'' []
   \<and> export_video ''again.mp4'' mp4_settings exporting_app = Inr exporting_again
   \<and> segment_lists (fold app_command [ClearTimeline True] exporting_again)
        (segments (export_job_thread\<lparr>output_path := ''again.mp4''\<rparr>)) = []"
proof -
  have t: "export_thread exporting_app = Some export_job_thread"
    by (simp add: exporting_app_def)
  have ne: "''out.mp4'' \<noteq> []" by simp
  have c: "video_segments (window (fold app_command [ClearTimeline True] exporting_app)) = []"
    using cleared_lists(1) by (simp add: window_def exporting_app_def two_clip_refs)
  from export_job_reads_live_lists [OF export_started ne t, of "[ClearTimeline True]"
      trace_engine "AtProgress 0 [[''a.mp4'']] []"] export_started t c
  have first: "export_video ''out.mp4'' mp4_settings two_clip_app = Inr exporting_app
   \<and> export_thread exporting_app = Some export_job_thread
   \<and> segment_lists (fold app_command [ClearTimeline True] exporting_app)
        (segments export_job_thread) = []
   \<and> job_step trace_engine export_job_thread
        (fold app_command [ClearTimeline True] exporting_app) (AtProgress 0 [[''a.mp4'']] [])
       = Ended None False ''division by zero'' []"
    by (simp add: job_step_on_def)
  have t2: "export_thread exporting_again
      = Some (export_job_thread\<lparr>output_path := ''again.mp4''\<rparr>)"
    by (simp add: exporting_again_def)
  have ne2: "''again.mp4'' \<noteq> []" by simp
  have "video_segments (window (app_command (ClearTimeline True) exporting_again)) = []"
    by (simp add: window_app_command clear_timeline_def Let_def)
  with export_job_reads_live_lists [OF export_started_again ne2 t2, of "[ClearTimeline True]"
      trace_engine "AtSegment 0 [] []"]
    export_started_again
  have "export_video ''again.mp4'' mp4_settings exporting_app = Inr exporting_again
   \<and> segment_lists (fold app_command [ClearTimeline True] exporting_again)
        (segments (export_job_thread\<lparr>output_path := ''again.mp4''\<rparr>)) = []"
    by simp
  with first show ?thesis by simp
qed

text \<open>
  C4 as stated fails. An export is started on the timeline a.mp4, b.mp4. Left alone the
  job takes six steps and writes a file made of both segments. When the timeline is
  cleared after the job has processed the first segment and emitted its progress, the
  job's next step finds the list empty, ends its loop and writes a file made of a.mp4
  only. When the timeline is cleared just before that progress value is computed, the
  job ends with \<^verbatim>\<open>finished(False, 'division by zero')\<close>.
\<close>

theorem export_job_sees_mutation_counterexample:
  "export_video ''out.mp4'' mp4_settings two_clip_app = Inr exporting_app
   \<and> export_thread exporting_app = Some export_job_thread
   \<and> (job_step trace_engine export_job_thread exporting_app ^^ 6) (AtSegment 0 [] [])
       = Ended (Some [''a.mp4'', ''b.mp4'']) True ''out.mp4'' [25, 50, 60, 100]
   \<and> (job_step trace_engine export_job_thread exporting_app ^^ 2) (AtSegment 0 [] [])
       = AtSegment 1 [[''a.mp4'']] [25]
   \<and> (job_step trace_engine export_job_thread (app_command (ClearTimeline True) exporting_app)
         ^^ 3) (AtSegment 1 [[''a.mp4'']] [25])
       = Ended (Some [''a.mp4'']) True ''out.mp4'' [25, 60, 100]
   \<and> job_step trace_engine export_job_thread exporting_app (AtSegment 0 [] [])
       = AtProgress 0 [[''a.mp4'']] []
   \<and> job_step trace_engine export_job_thread (app_command (ClearTimeline True) exporting_app)
         (AtProgress 0 [[''a.mp4'']] [])
       = Ended None False ''division by zero'' []"
  apply (intro conjI)
        apply (rule export_started)
       apply (simp add: exporting_app_def)
      apply (simp add: eval_nat_numeral job_step_def job_step_on_def export_job_thread_def
      exporting_app_def two_clip_lists process_segment_def trace_engine_def one_segment_def
      encode_export_def mp4_settings_def dict_get_def)
     apply (simp add: eval_nat_numeral job_step_def job_step_on_def export_job_thread_def
      exporting_app_def two_clip_lists process_segment_def trace_engine_def one_segment_def)
    apply (simp add: eval_nat_numeral job_step_def job_step_on_def cleared_lists
      export_job_thread_def trace_engine_def encode_export_def mp4_settings_def dict_get_def)
   apply (simp add: job_step_def job_step_on_def export_job_thread_def
      exporting_app_def two_clip_lists process_segment_def trace_engine_def one_segment_def)
  apply (simp add: job_step_def job_step_on_def cleared_lists export_job_thread_def)
  done

end
